theory Spec2Isabelle
  imports Main "HOL-Library.Word"
begin

section \<open>The host runtime as seen by \<^verbatim>\<open>dyn-array.c\<close> and \<^verbatim>\<open>sexp.c\<close>\<close>

text \<open>
  Both files are C code over the object model of the R runtime. The objects of the model
  are the vectors (atomic vectors, whose storage is a block of bytes, and generic lists,
  whose storage is a row of object references) and two kinds of reference objects,
  which the runtime never copies: environments and external pointers. Every object
  carries a pairlist of attributes and the object bit. Objects live in a heap and are
  named by their address; allocation appends to the heap, and nothing is collected.
\<close>

type_synonym byte = "8 word"

text \<open>
  \<^verbatim>\<open>r_ssize\<close> is the signed size type of the platform (64 bits). It is modelled by
  \<open>int\<close>; an unchecked C operation on it is written with \<open>wrap_ssize\<close>, the value the
  two's complement machine operation leaves (C itself leaves signed overflow undefined).
\<close>

type_synonym r_ssize = int

definition R_SSIZE_MAX :: r_ssize where
  "R_SSIZE_MAX = 2 ^ 63 - 1"

definition R_SSIZE_MIN :: r_ssize where
  "R_SSIZE_MIN = - (2 ^ 63)"

definition wrap_ssize :: "int \<Rightarrow> r_ssize" where
  "wrap_ssize x = (x + 2 ^ 63) mod 2 ^ 64 - 2 ^ 63"

text \<open>
  A call returns, or raises an error that unwinds to the caller (R's \<^verbatim>\<open>r_abort\<close> is a
  long jump), or runs into behaviour C leaves undefined (a write outside a buffer, a
  pointer that is no object). The state at that point is part of the result, since the
  memory written before a long jump stays written.
\<close>

datatype error = OverflowError | AllocationError | HostError

datatype 'a outcome = Returned 'a | Raised error | Undefined

definition and_then ::
  "'a outcome \<times> 's \<Rightarrow> ('a \<Rightarrow> 's \<Rightarrow> 'b outcome \<times> 's) \<Rightarrow> 'b outcome \<times> 's" where
  "and_then m f =
     (case m of
        (Returned x, s) \<Rightarrow> f x s
      | (Raised e, s) \<Rightarrow> (Raised e, s)
      | (Undefined, s) \<Rightarrow> (Undefined, s))"

text \<open>
  Modelled from the spec: \<^verbatim>\<open>enum r_type\<close> and \<^verbatim>\<open>r_vec_elt_sizeof0\<close> are declared in
  \<^verbatim>\<open>rlang.h\<close>, which is not among the sources (the spec's \<open>element_type\<close> and
  \<open>element_byte_size(type)\<close>). The types kept are those of the atomic vectors, with the
  sizes of their C element types: \<^verbatim>\<open>int\<close> for logical and integer, \<^verbatim>\<open>double\<close>,
  \<^verbatim>\<open>Rcomplex\<close>, and one byte for raw.
\<close>

datatype r_type =
  r_type_logical | r_type_integer | r_type_double | r_type_complex | r_type_raw

fun r_vec_elt_sizeof0 :: "r_type \<Rightarrow> r_ssize" where
  "r_vec_elt_sizeof0 r_type_logical = 4"
| "r_vec_elt_sizeof0 r_type_integer = 4"
| "r_vec_elt_sizeof0 r_type_double = 8"
| "r_vec_elt_sizeof0 r_type_complex = 16"
| "r_vec_elt_sizeof0 r_type_raw = 1"

text \<open>
  An object reference is the null object, the address of a heap object, or a symbol
  (symbols are interned: the name is the identity).
\<close>

datatype sexp = r_null | Ref nat | Sym string

text \<open>
  What an object holds: the bytes of an atomic vector of a type, the slots of a list,
  the frame of an environment (symbols and their values), or the C address held by an
  external pointer.
\<close>

datatype payload =
  Bytes r_type "byte list" | Slots "sexp list" | Env "(sexp \<times> sexp) list" | ExtPtr nat

record robj =
  payload :: payload
  attrib :: "(sexp \<times> sexp) list"
  obj_bit :: bool

text \<open>
  A raw pointer into the storage of a vector: the vector and a byte offset.
\<close>

datatype ptr = Ptr sexp int

text \<open>
  The world: the heap, the protection stack of the collector (\<^verbatim>\<open>KEEP\<close>/\<^verbatim>\<open>FREE\<close>), the
  static variable \<^verbatim>\<open>attribs_dyn_array\<close> of \<^verbatim>\<open>dyn-array.c\<close> (the pairlist it points to,
  \<open>[]\<close> for \<^verbatim>\<open>NULL\<close>), and two parameters of the host that the code cannot see: which
  requests the allocator can satisfy (\<open>mem_ok n b\<close>: with \<open>n\<close> objects allocated, a
  block of \<open>b\<close> bytes is available), and the bytes found in storage that was allocated
  but never written (\<open>junk a i\<close>: byte \<open>i\<close> of the object at address \<open>a\<close>).
\<close>

record world =
  heap :: "robj list"
  pstack :: "sexp list"
  attribs_dyn_array :: "(sexp \<times> sexp) list"
  mem_ok :: "nat \<Rightarrow> nat \<Rightarrow> bool"
  junk :: "nat \<Rightarrow> nat \<Rightarrow> byte"

subsection \<open>Allocation\<close>

text \<open>
  Modelled from the spec: the host allocator (\<open>allocate_vector\<close>,
  \<open>allocate_container\<close>; \<^verbatim>\<open>r_new_vector\<close>, \<^verbatim>\<open>r_new_raw\<close> and \<^verbatim>\<open>r_new_list\<close> of
  \<^verbatim>\<open>rlang.h\<close>). A request the host cannot satisfy raises \<open>AllocationError\<close> and leaves
  the world as it was; there is no vector of negative length. The storage of a new
  atomic vector is not initialised; the slots of a new list hold the null object.
\<close>

definition alloc :: "nat \<Rightarrow> robj \<Rightarrow> world \<Rightarrow> sexp outcome \<times> world" where
  "alloc nbytes obj w =
     (if mem_ok w (length (heap w)) nbytes
      then (Returned (Ref (length (heap w))), w\<lparr>heap := heap w @ [obj]\<rparr>)
      else (Raised AllocationError, w))"

definition r_new_vector :: "r_type \<Rightarrow> r_ssize \<Rightarrow> world \<Rightarrow> sexp outcome \<times> world" where
  "r_new_vector ty n w =
     (if n < 0 then (Raised AllocationError, w)
      else let nbytes = nat (n * r_vec_elt_sizeof0 ty) in
        alloc nbytes
          \<lparr>payload = Bytes ty (map (junk w (length (heap w))) [0..<nbytes]),
           attrib = [], obj_bit = False\<rparr> w)"

definition r_new_raw :: "r_ssize \<Rightarrow> world \<Rightarrow> sexp outcome \<times> world" where
  "r_new_raw n w = r_new_vector r_type_raw n w"

definition sizeof_sexp_ptr :: r_ssize where
  "sizeof_sexp_ptr = 8"

definition r_new_list :: "r_ssize \<Rightarrow> world \<Rightarrow> sexp outcome \<times> world" where
  "r_new_list n w =
     (if n < 0 then (Raised AllocationError, w)
      else alloc (nat (n * sizeof_sexp_ptr))
          \<lparr>payload = Slots (replicate (nat n) r_null), attrib = [], obj_bit = False\<rparr> w)"

text \<open>
  Modelled from the spec: \<open>resize_vector(type, handle, size)\<close> (\<^verbatim>\<open>r_vec_resize0\<close> of
  \<^verbatim>\<open>rlang.h\<close>): a vector of \<open>size\<close> elements of the type, whose leading elements are
  copied from the old vector and whose other storage is not initialised. The model
  always relocates: the result is a new object and the old one stays as it was (the
  caller must discard the old handle either way).
\<close>

definition r_vec_resize0 ::
  "r_type \<Rightarrow> sexp \<Rightarrow> r_ssize \<Rightarrow> world \<Rightarrow> sexp outcome \<times> world" where
  "r_vec_resize0 ty x n w =
     (case x of
        Ref a \<Rightarrow>
          if a < length (heap w) then
            (case payload (heap w ! a) of
               Bytes ty' bs \<Rightarrow>
                 if ty' \<noteq> ty then (Undefined, w)
                 else if n < 0 then (Raised AllocationError, w)
                 else let nbytes = nat (n * r_vec_elt_sizeof0 ty) in
                   alloc nbytes
                     ((heap w ! a)\<lparr>payload :=
                        Bytes ty (take nbytes bs @
                          map (junk w (length (heap w))) [length bs..<nbytes])\<rparr>) w
             | _ \<Rightarrow> (Undefined, w))
          else (Undefined, w)
      | _ \<Rightarrow> (Undefined, w))"

text \<open>
  Modelled from the spec: \<open>dereference_vector\<close> (\<^verbatim>\<open>r_vec_deref0\<close> of \<^verbatim>\<open>rlang.h\<close>), the
  pointer to the first byte of the storage.
\<close>

definition r_vec_deref0 :: "r_type \<Rightarrow> sexp \<Rightarrow> ptr" where
  "r_vec_deref0 ty x = Ptr x 0"

subsection \<open>Protection stack, attributes, list slots\<close>

text \<open>
  Modelled from the spec: the wrappers of \<^verbatim>\<open>rlang.h\<close> around the host's container and
  rooting primitives. \<^verbatim>\<open>KEEP\<close> and \<^verbatim>\<open>FREE\<close> are the scoped root (\<open>scoped_root\<close>): a
  stack, pushed by \<^verbatim>\<open>KEEP\<close>, popped \<open>n\<close> deep by \<^verbatim>\<open>FREE(n)\<close>. \<^verbatim>\<open>r_poke_attrib\<close> and
  \<^verbatim>\<open>r_mark_object\<close> tag an object with a class (\<open>tag_with_class\<close>): the first replaces
  the attribute pairlist, the second sets the object bit. \<^verbatim>\<open>r_list_get\<close> and
  \<^verbatim>\<open>r_list_poke\<close> read and write a slot of a list (\<open>get_slot\<close>, \<open>set_slot\<close>). Applied
  to what is no object of the right kind they are undefined.
\<close>

definition KEEP :: "sexp \<Rightarrow> world \<Rightarrow> sexp outcome \<times> world" where
  "KEEP x w = (Returned x, w\<lparr>pstack := x # pstack w\<rparr>)"

definition FREE :: "nat \<Rightarrow> world \<Rightarrow> unit outcome \<times> world" where
  "FREE n w =
     (if n \<le> length (pstack w) then (Returned (), w\<lparr>pstack := drop n (pstack w)\<rparr>)
      else (Raised HostError, w))"

definition modify_obj :: "sexp \<Rightarrow> (robj \<Rightarrow> robj) \<Rightarrow> world \<Rightarrow> unit outcome \<times> world" where
  "modify_obj x f w =
     (case x of
        Ref a \<Rightarrow>
          if a < length (heap w)
          then (Returned (), w\<lparr>heap := (heap w)[a := f (heap w ! a)]\<rparr>)
          else (Undefined, w)
      | _ \<Rightarrow> (Undefined, w))"

definition r_poke_attrib :: "sexp \<Rightarrow> (sexp \<times> sexp) list \<Rightarrow> world \<Rightarrow> unit outcome \<times> world" where
  "r_poke_attrib x attrs w = modify_obj x (\<lambda>obj. obj\<lparr>attrib := attrs\<rparr>) w"

definition r_mark_object :: "sexp \<Rightarrow> world \<Rightarrow> unit outcome \<times> world" where
  "r_mark_object x w = modify_obj x (\<lambda>obj. obj\<lparr>obj_bit := True\<rparr>) w"

definition r_list_get :: "sexp \<Rightarrow> r_ssize \<Rightarrow> world \<Rightarrow> sexp outcome \<times> world" where
  "r_list_get x i w =
     (case x of
        Ref a \<Rightarrow>
          if a < length (heap w) then
            (case payload (heap w ! a) of
               Slots ss \<Rightarrow>
                 if 0 \<le> i \<and> i < int (length ss) then (Returned (ss ! nat i), w)
                 else (Undefined, w)
             | _ \<Rightarrow> (Undefined, w))
          else (Undefined, w)
      | _ \<Rightarrow> (Undefined, w))"

definition r_list_poke :: "sexp \<Rightarrow> r_ssize \<Rightarrow> sexp \<Rightarrow> world \<Rightarrow> unit outcome \<times> world" where
  "r_list_poke x i v w =
     (case x of
        Ref a \<Rightarrow>
          if a < length (heap w) then
            (case payload (heap w ! a) of
               Slots ss \<Rightarrow>
                 if 0 \<le> i \<and> i < int (length ss)
                 then (Returned (),
                       w\<lparr>heap := (heap w)[a := (heap w ! a)\<lparr>payload := Slots (ss[nat i := v])\<rparr>]\<rparr>)
                 else (Undefined, w)
             | _ \<Rightarrow> (Undefined, w))
          else (Undefined, w)
      | _ \<Rightarrow> (Undefined, w))"

subsection \<open>Raw memory\<close>

text \<open>
  \<^verbatim>\<open>memcpy\<close> and \<^verbatim>\<open>memset\<close> write a run of bytes at a pointer. A write that does not lie
  inside the storage of an atomic vector is undefined. The source of \<^verbatim>\<open>memcpy\<close> is
  the caller's memory, given as the function from offsets to bytes.
\<close>

definition write_bytes :: "ptr \<Rightarrow> byte list \<Rightarrow> world \<Rightarrow> unit outcome \<times> world" where
  "write_bytes dest src w =
     (case dest of
        Ptr (Ref a) off \<Rightarrow>
          if a < length (heap w) then
            (case payload (heap w ! a) of
               Bytes ty bs \<Rightarrow>
                 if 0 \<le> off \<and> off + int (length src) \<le> int (length bs)
                 then (Returned (),
                       w\<lparr>heap := (heap w)[a := (heap w ! a)\<lparr>payload :=
                           Bytes ty (take (nat off) bs @ src @
                                     drop (nat off + length src) bs)\<rparr>]\<rparr>)
                 else (Undefined, w)
             | _ \<Rightarrow> (Undefined, w))
          else (Undefined, w)
      | _ \<Rightarrow> (Undefined, w))"

definition memcpy :: "ptr \<Rightarrow> (nat \<Rightarrow> byte) \<Rightarrow> r_ssize \<Rightarrow> world \<Rightarrow> unit outcome \<times> world" where
  "memcpy dest src n w =
     (if n < 0 then (Undefined, w) else write_bytes dest (map src [0..<nat n]) w)"

definition memset :: "ptr \<Rightarrow> byte \<Rightarrow> r_ssize \<Rightarrow> world \<Rightarrow> unit outcome \<times> world" where
  "memset dest c n w =
     (if n < 0 then (Undefined, w) else write_bytes dest (replicate (nat n) c) w)"

text \<open>Reading \<open>n\<close> bytes at a pointer; \<open>None\<close> where the read is not inside a vector.\<close>

definition read_bytes :: "ptr \<Rightarrow> r_ssize \<Rightarrow> world \<Rightarrow> byte list option" where
  "read_bytes src n w =
     (case src of
        Ptr (Ref a) off \<Rightarrow>
          if a < length (heap w) then
            (case payload (heap w ! a) of
               Bytes ty bs \<Rightarrow>
                 if 0 \<le> off \<and> 0 \<le> n \<and> off + n \<le> int (length bs)
                 then Some (take (nat n) (drop (nat off) bs))
                 else None
             | _ \<Rightarrow> None)
          else None
      | _ \<Rightarrow> None)"

section \<open>\<^verbatim>\<open>dyn-array.c\<close>\<close>

text \<open>
  Modelled from the spec: \<^verbatim>\<open>r_ssize_mult\<close> and \<^verbatim>\<open>r_ssize_min\<close> of \<^verbatim>\<open>rlang.h\<close>. The
  multiplication is checked: it fails with \<open>OverflowError\<close> if the product exceeds the
  platform's signed size limit.
\<close>

definition r_ssize_mult :: "r_ssize \<Rightarrow> r_ssize \<Rightarrow> r_ssize outcome" where
  "r_ssize_mult x y =
     (if R_SSIZE_MIN \<le> x * y \<and> x * y \<le> R_SSIZE_MAX then Returned (x * y)
      else Raised OverflowError)"

definition r_ssize_min :: "r_ssize \<Rightarrow> r_ssize \<Rightarrow> r_ssize" where
  "r_ssize_min x y = (if x < y then x else y)"

definition R_DYN_ARRAY_GROWTH_FACTOR :: int where
  "R_DYN_ARRAY_GROWTH_FACTOR = 2"

text \<open>
  Modelled from the spec: the control struct (\<^verbatim>\<open>struct r_dyn_array\<close> of \<^verbatim>\<open>dyn-array.h\<close>,
  which is not among the sources), with the fields that \<^verbatim>\<open>r_new_dyn_vector\<close> assigns and
  the spec's data model lists. It overlays the storage of the raw vector in slot 0 of
  the shelter; the model carries it as a record beside the world and does not interpret
  the bytes of that vector. \<open>sizeof_r_dyn_array\<close> is the size of the struct on a 64-bit
  platform.
\<close>

record r_dyn_array =
  shelter :: sexp
  count :: r_ssize
  capacity :: r_ssize
  growth_factor :: int
  v_data :: ptr
  type :: r_type
  elt_byte_size :: r_ssize

definition sizeof_r_dyn_array :: r_ssize where
  "sizeof_r_dyn_array = 56"

definition r_new_dyn_vector :: "r_type \<Rightarrow> r_ssize \<Rightarrow> world \<Rightarrow> r_dyn_array outcome \<times> world" where
  "r_new_dyn_vector ty cap w0 =
     and_then (r_new_list 2 w0) (\<lambda>x w.
     and_then (KEEP x w) (\<lambda>shelter w.
     and_then (r_poke_attrib shelter (attribs_dyn_array w) w) (\<lambda>_ w.
     and_then (r_mark_object shelter w) (\<lambda>_ w.
     and_then (r_new_raw sizeof_r_dyn_array w) (\<lambda>vec_raw w.
     and_then (r_list_poke shelter 0 vec_raw w) (\<lambda>_ w.
     and_then (r_new_vector ty cap w) (\<lambda>vec_sexp w.
     and_then (r_list_poke shelter 1 vec_sexp w) (\<lambda>_ w.
       let p_vec = \<lparr>shelter = shelter,
                    count = 0,
                    capacity = cap,
                    growth_factor = R_DYN_ARRAY_GROWTH_FACTOR,
                    v_data = r_vec_deref0 ty vec_sexp,
                    type = ty,
                    elt_byte_size = r_vec_elt_sizeof0 ty\<rparr>
       in and_then (FREE 1 w) (\<lambda>_ w. (Returned p_vec, w))))))))))"

definition r_new_dyn_array :: "r_ssize \<Rightarrow> r_ssize \<Rightarrow> world \<Rightarrow> r_dyn_array outcome \<times> world" where
  "r_new_dyn_array elt_size cap w =
     and_then (r_ssize_mult cap elt_size, w) (\<lambda>arr_byte_size w.
       r_new_dyn_vector r_type_raw arr_byte_size w)"

text \<open>
  \<^verbatim>\<open>r_arr_resize\<close>. The size handed to the allocator is the unchecked product
  \<^verbatim>\<open>p_arr->elt_byte_size * capacity\<close>, whatever the type. The three fields are assigned
  after the allocator and \<^verbatim>\<open>r_list_poke\<close> have returned.
\<close>

definition r_arr_resize ::
  "r_dyn_array \<Rightarrow> r_ssize \<Rightarrow> world \<Rightarrow> unit outcome \<times> r_dyn_array \<times> world" where
  "r_arr_resize p cap w0 =
     (let ty = type p in
      case and_then (r_list_get (shelter p) 1 w0) (\<lambda>old w.
           and_then (r_vec_resize0 ty old (wrap_ssize (elt_byte_size p * cap)) w) (\<lambda>arr_raw w.
           and_then (r_list_poke (shelter p) 1 arr_raw w) (\<lambda>_ w.
             (Returned arr_raw, w)))) of
        (Returned arr_raw, w) \<Rightarrow>
          (Returned (),
           p\<lparr>count := r_ssize_min (count p) cap,
             capacity := cap,
             v_data := r_vec_deref0 ty arr_raw\<rparr>, w)
      | (Raised e, w) \<Rightarrow> (Raised e, p, w)
      | (Undefined, w) \<Rightarrow> (Undefined, p, w))"

text \<open>
  Modelled from the spec: \<^verbatim>\<open>r_arr_ptr_back\<close> of \<^verbatim>\<open>dyn-array.h\<close>, the slot immediately
  preceding \<open>count\<close>, that is position \<open>count - 1\<close>; \<open>r_arr_ptr\<close> is the slot at a
  position.
\<close>

definition r_arr_ptr :: "r_dyn_array \<Rightarrow> r_ssize \<Rightarrow> ptr" where
  "r_arr_ptr p i = (case v_data p of Ptr x off \<Rightarrow> Ptr x (off + i * elt_byte_size p))"

definition r_arr_ptr_back :: "r_dyn_array \<Rightarrow> ptr" where
  "r_arr_ptr_back p = r_arr_ptr p (count p - 1)"

text \<open>
  \<^verbatim>\<open>r_arr_push_back\<close>. \<open>p_elt\<close> is \<open>None\<close> for the null pointer, else the memory the
  pointer refers to. The count is incremented in the struct first.
\<close>

definition r_arr_push_back ::
  "r_dyn_array \<Rightarrow> (nat \<Rightarrow> byte) option \<Rightarrow> world \<Rightarrow> unit outcome \<times> r_dyn_array \<times> world" where
  "r_arr_push_back p0 p_elt w0 =
     (let p = p0\<lparr>count := wrap_ssize (count p0 + 1)\<rparr>;
          grown =
            (if count p > capacity p then
               (case r_ssize_mult (capacity p) (growth_factor p) of
                  Returned new_capacity \<Rightarrow> r_arr_resize p new_capacity w0
                | Raised e \<Rightarrow> (Raised e, p, w0)
                | Undefined \<Rightarrow> (Undefined, p, w0))
             else (Returned (), p, w0))
      in case grown of
        (Returned _, p, w) \<Rightarrow>
          (case (case p_elt of
                   Some elt \<Rightarrow> memcpy (r_arr_ptr_back p) elt (elt_byte_size p) w
                 | None \<Rightarrow> memset (r_arr_ptr_back p) 0 (elt_byte_size p) w) of
             (r, w) \<Rightarrow> (r, p, w))
      | (Raised e, p, w) \<Rightarrow> (Raised e, p, w)
      | (Undefined, p, w) \<Rightarrow> (Undefined, p, w))"

text \<open>A caller that pushes a sequence of elements, stopping at the first call that does not return.\<close>

fun push_all ::
  "r_dyn_array \<Rightarrow> (nat \<Rightarrow> byte) option list \<Rightarrow> world \<Rightarrow> unit outcome \<times> r_dyn_array \<times> world" where
  "push_all p [] w = (Returned (), p, w)"
| "push_all p (e # es) w =
     (case r_arr_push_back p e w of
        (Returned _, p', w') \<Rightarrow> push_all p' es w'
      | (Raised err, p', w') \<Rightarrow> (Raised err, p', w')
      | (Undefined, p', w') \<Rightarrow> (Undefined, p', w'))"

text \<open>
  What the claims call an array. The buffer is in place (\<open>buf_ok\<close>): the shelter is a
  list of two slots in the heap with the backing vector in slot 1, the backing vector
  has the struct's type and room for \<open>capacity\<close> elements, \<open>v_data\<close> points at its first
  byte, the element size is that of the type, and the capacity is a value of
  \<^verbatim>\<open>r_ssize\<close>. And \<open>0 \<le> count \<le> capacity\<close>.
\<close>

definition buf_ok :: "world \<Rightarrow> r_dyn_array \<Rightarrow> bool" where
  "buf_ok w p \<longleftrightarrow>
     elt_byte_size p = r_vec_elt_sizeof0 (type p) \<and> capacity p \<le> R_SSIZE_MAX \<and>
     (case shelter p of
        Ref s \<Rightarrow>
          s < length (heap w) \<and>
          (case payload (heap w ! s) of
             Slots ss \<Rightarrow>
               length ss = 2 \<and>
               (case ss ! 1 of
                  Ref v \<Rightarrow>
                    v < length (heap w) \<and> v_data p = Ptr (Ref v) 0 \<and>
                    (case payload (heap w ! v) of
                       Bytes ty bs \<Rightarrow>
                         ty = type p \<and> capacity p * elt_byte_size p \<le> int (length bs)
                     | _ \<Rightarrow> False)
                | _ \<Rightarrow> False)
           | _ \<Rightarrow> False)
      | _ \<Rightarrow> False)"

definition arr_ok :: "world \<Rightarrow> r_dyn_array \<Rightarrow> bool" where
  "arr_ok w p \<longleftrightarrow> buf_ok w p \<and> 0 \<le> count p \<and> count p \<le> capacity p"

text \<open>The bytes of the element at position \<open>i\<close> of an array, read through \<open>v_data\<close>.\<close>

definition r_arr_get :: "r_dyn_array \<Rightarrow> r_ssize \<Rightarrow> world \<Rightarrow> byte list option" where
  "r_arr_get p i w = read_bytes (r_arr_ptr p i) (elt_byte_size p) w"

text \<open>
  Modelled from the spec: \<^verbatim>\<open>r_length\<close> of \<^verbatim>\<open>rlang.h\<close>, the number of elements of a
  vector (bytes for a raw vector).
\<close>

definition r_length :: "sexp \<Rightarrow> world \<Rightarrow> r_ssize option" where
  "r_length x w =
     (case x of
        Ref a \<Rightarrow>
          if a < length (heap w) then
            (case payload (heap w ! a) of
               Bytes ty bs \<Rightarrow> Some (int (length bs) div r_vec_elt_sizeof0 ty)
             | Slots ss \<Rightarrow> Some (int (length ss))
             | Env frame \<Rightarrow> Some (int (length frame))
             | ExtPtr addr \<Rightarrow> Some 1)
          else None
      | _ \<Rightarrow> None)"

section \<open>\<^verbatim>\<open>sexp.c\<close>\<close>

















section \<open>Example worlds\<close>

text \<open>
  A host that satisfies every request, with the class vector of the dynamic arrays at
  address 0 and \<^verbatim>\<open>0xAA\<close> in storage never written; and a host that is out of memory once
  four objects are allocated.
\<close>

definition host0 :: world where
  "host0 =
     \<lparr>heap = [\<lparr>payload = Slots [Sym ''rlang_dyn_array''], attrib = [], obj_bit = False\<rparr>],
      pstack = [Ref 0],
      attribs_dyn_array = [(Sym ''class'', Ref 0)],
      mem_ok = (\<lambda>n b. True),
      junk = (\<lambda>a i. 170)\<rparr>"

definition host_small :: world where
  "host_small = host0\<lparr>mem_ok := (\<lambda>n b. n < 4)\<rparr>"

text \<open>
  An integer array of capacity 1 created on \<open>host0\<close>, an element of four bytes, and
  the two ways of pushing onto it.
\<close>

definition int_arr :: r_dyn_array where
  "int_arr = \<lparr>shelter = Ref 1, count = 0, capacity = 1, growth_factor = 2,
     v_data = Ptr (Ref 3) 0, type = r_type_integer, elt_byte_size = 4\<rparr>"

definition int_world :: world where
  "int_world = snd (r_new_dyn_vector r_type_integer 1 host0)"

definition elt1234 :: "nat \<Rightarrow> byte" where
  "elt1234 i = of_nat i + 1"

definition int_pushed :: "unit outcome \<times> r_dyn_array \<times> world" where
  "int_pushed = r_arr_push_back int_arr (Some elt1234) int_world"

definition int_zeroed :: "unit outcome \<times> r_dyn_array \<times> world" where
  "int_zeroed = r_arr_push_back int_arr None int_world"

text \<open>
  Further runs used as examples: the integer array resized to 8; the same array on the
  small host, filled by one push; a control struct whose capacity cannot be doubled; the
  pushed array truncated to 0; an array of doubles, pushed once and then resized to
  \<open>2 ^ 61\<close>; the world after the first push onto the integer array; the integer
  vector given a \<open>units\<close> attribute by both setters; and a world with an environment at
  address 1, given the same attribute by \<^verbatim>\<open>set_attr\<close>.
\<close>

definition int_resized :: "unit outcome \<times> r_dyn_array \<times> world" where
  "int_resized = r_arr_resize int_arr 8 int_world"

definition small_world :: world where
  "small_world = snd (r_new_dyn_vector r_type_integer 1 host_small)"

definition full_arr :: r_dyn_array where
  "full_arr = int_arr\<lparr>count := 1\<rparr>"

definition full_world :: world where
  "full_world = snd (snd (r_arr_push_back int_arr (Some elt1234) small_world))"

definition big_arr :: r_dyn_array where
  "big_arr = \<lparr>shelter = Ref 1, count = 2 ^ 62, capacity = 2 ^ 62, growth_factor = 2,
     v_data = Ptr (Ref 3) 0, type = r_type_raw, elt_byte_size = 1\<rparr>"

definition int_truncated :: "unit outcome \<times> r_dyn_array \<times> world" where
  "int_truncated = r_arr_resize (fst (snd int_pushed)) 0 (snd (snd int_pushed))"

definition dbl_arr :: r_dyn_array where
  "dbl_arr = \<lparr>shelter = Ref 1, count = 0, capacity = 1, growth_factor = 2,
     v_data = Ptr (Ref 3) 0, type = r_type_double, elt_byte_size = 8\<rparr>"

definition dbl_world :: world where
  "dbl_world = snd (r_new_dyn_vector r_type_double 1 host0)"

definition dbl_pushed :: "unit outcome \<times> r_dyn_array \<times> world" where
  "dbl_pushed = r_arr_push_back dbl_arr (Some elt1234) dbl_world"

definition dbl_grown :: "unit outcome \<times> r_dyn_array \<times> world" where
  "dbl_grown = r_arr_resize (fst (snd dbl_pushed)) (2 ^ 61) (snd (snd dbl_pushed))"

definition pushed_world :: world where
  "pushed_world = snd (snd int_pushed)"





text \<open>
  The part of the state of an array that a sequence of pushes maintains, for an array
  created with capacity \<open>cap0\<close>; and the inputs of two more examples: an array created
  with capacity 0, and a sequence of three pushes.
\<close>

definition push_inv :: "r_ssize \<Rightarrow> r_dyn_array \<Rightarrow> bool" where
  "push_inv cap0 p \<longleftrightarrow>
     growth_factor p = 2 \<and> 0 \<le> count p \<and> count p \<le> capacity p \<and>
     1 \<le> cap0 \<and> cap0 \<le> capacity p \<and> capacity p \<le> R_SSIZE_MAX \<and>
     0 < elt_byte_size p \<and> (\<exists>x. v_data p = Ptr x 0) \<and>
     (\<exists>k. capacity p = cap0 * 2 ^ k)"

definition zero_arr :: r_dyn_array where
  "zero_arr = \<lparr>shelter = Ref 1, count = 0, capacity = 0, growth_factor = 2,
     v_data = Ptr (Ref 3) 0, type = r_type_integer, elt_byte_size = 4\<rparr>"

definition zero_world :: world where
  "zero_world = snd (r_new_dyn_vector r_type_integer 0 host0)"

definition three_pushes :: "(nat \<Rightarrow> byte) option list" where
  "three_pushes = [Some elt1234, None, Some elt1234]"

section \<open>Evaluation rules and basic facts\<close>

lemmas host_defs =
  alloc_def r_new_vector_def r_new_raw_def r_new_list_def r_vec_resize0_def r_vec_deref0_def
  KEEP_def FREE_def modify_obj_def r_poke_attrib_def r_mark_object_def r_list_get_def
  r_list_poke_def write_bytes_def memcpy_def memset_def read_bytes_def sizeof_sexp_ptr_def

lemmas dyn_array_defs =
  r_ssize_mult_def r_ssize_min_def R_DYN_ARRAY_GROWTH_FACTOR_def sizeof_r_dyn_array_def
  r_new_dyn_vector_def r_new_dyn_array_def r_arr_resize_def r_arr_ptr_def r_arr_ptr_back_def
  r_arr_push_back_def r_arr_get_def r_length_def R_SSIZE_MAX_def R_SSIZE_MIN_def wrap_ssize_def


lemma and_then_simps [simp]:
  "and_then (Returned x, s) f = f x s"
  "and_then (Raised e, s) f = (Raised e, s)"
  "and_then (Undefined, s) f = (Undefined, s)"
  by (simp_all add: and_then_def)

lemma replicate_2: "replicate 2 x = [x, x]"
  by (simp add: numeral_2_eq_2)

lemma wrap_ssize_id: "R_SSIZE_MIN \<le> x \<Longrightarrow> x \<le> R_SSIZE_MAX \<Longrightarrow> wrap_ssize x = x"
  by (simp add: wrap_ssize_def R_SSIZE_MIN_def R_SSIZE_MAX_def)

lemma elt_size_pos: "0 < r_vec_elt_sizeof0 ty"
  by (cases ty) simp_all

lemma elt_size_le: "r_vec_elt_sizeof0 ty \<le> 16"
  by (cases ty) simp_all

lemma r_new_dyn_vector_Returned:
  assumes "r_new_dyn_vector ty cap w = (Returned p, w')"
  shows "0 \<le> cap"
    and "p = \<lparr>shelter = Ref (length (heap w)), count = 0, capacity = cap,
              growth_factor = 2, v_data = Ptr (Ref (length (heap w) + 2)) 0,
              type = ty, elt_byte_size = r_vec_elt_sizeof0 ty\<rparr>"
    and "w' = w\<lparr>heap := heap w @
           [\<lparr>payload = Slots [Ref (length (heap w) + 1), Ref (length (heap w) + 2)],
             attrib = attribs_dyn_array w, obj_bit = True\<rparr>,
            \<lparr>payload = Bytes r_type_raw
               (map (junk w (length (heap w) + 1)) [0..<nat sizeof_r_dyn_array]),
             attrib = [], obj_bit = False\<rparr>,
            \<lparr>payload = Bytes ty
               (map (junk w (length (heap w) + 2)) [0..<nat (cap * r_vec_elt_sizeof0 ty)]),
             attrib = [], obj_bit = False\<rparr>]\<rparr>"
  using assms
  unfolding r_new_dyn_vector_def r_new_list_def r_new_raw_def r_new_vector_def alloc_def
    KEEP_def FREE_def r_poke_attrib_def r_mark_object_def modify_obj_def r_list_poke_def
    r_vec_deref0_def R_DYN_ARRAY_GROWTH_FACTOR_def sizeof_sexp_ptr_def Let_def
  by (auto split: if_splits simp: nth_append replicate_2)

lemma r_new_dyn_vector_returns:
  assumes "mem_ok w (length (heap w)) 16"
    and "mem_ok w (length (heap w) + 1) (nat sizeof_r_dyn_array)"
    and "0 \<le> cap"
    and "mem_ok w (length (heap w) + 2) (nat (cap * r_vec_elt_sizeof0 ty))"
  shows "\<exists>p w'. r_new_dyn_vector ty cap w = (Returned p, w')"
  using assms
  unfolding r_new_dyn_vector_def r_new_list_def r_new_raw_def r_new_vector_def alloc_def
    KEEP_def FREE_def r_poke_attrib_def r_mark_object_def modify_obj_def r_list_poke_def
    r_vec_deref0_def R_DYN_ARRAY_GROWTH_FACTOR_def sizeof_sexp_ptr_def Let_def
  by (auto split: if_splits simp: nth_append replicate_2 sizeof_r_dyn_array_def)

lemma r_arr_resize_Returned:
  assumes "r_arr_resize p n w = (Returned u, p', w')"
  obtains s ss v bs where
    "shelter p = Ref s" "s < length (heap w)" "payload (heap w ! s) = Slots ss"
    "1 < length ss" "ss ! 1 = Ref v" "v < length (heap w)"
    "payload (heap w ! v) = Bytes (type p) bs"
    "0 \<le> wrap_ssize (elt_byte_size p * n)"
    "p' = p\<lparr>count := r_ssize_min (count p) n, capacity := n,
             v_data := Ptr (Ref (length (heap w))) 0\<rparr>"
    "w' = w\<lparr>heap :=
        (heap w)[s := (heap w ! s)\<lparr>payload := Slots (ss[1 := Ref (length (heap w))])\<rparr>] @
        [(heap w ! v)\<lparr>payload := Bytes (type p)
           (take (nat (wrap_ssize (elt_byte_size p * n) * r_vec_elt_sizeof0 (type p))) bs @
            map (junk w (length (heap w)))
              [length bs..<nat (wrap_ssize (elt_byte_size p * n) * r_vec_elt_sizeof0 (type p))])\<rparr>]\<rparr>"
  using assms
  unfolding r_arr_resize_def r_list_get_def r_vec_resize0_def alloc_def r_list_poke_def
    r_vec_deref0_def Let_def
  by (auto split: if_splits sexp.splits payload.splits simp: nth_append list_update_append)

lemma r_arr_resize_Raised:
  assumes "r_arr_resize p n w = (Raised e, p', w')"
  shows "e = AllocationError \<and> p' = p \<and> w' = w"
  using assms
  unfolding r_arr_resize_def r_list_get_def r_vec_resize0_def alloc_def r_list_poke_def
    r_vec_deref0_def Let_def
  by (auto split: if_splits sexp.splits payload.splits simp: nth_append list_update_append)


lemma write_bytes_not_Raised: "write_bytes d src w \<noteq> (Raised e, w')"
  unfolding write_bytes_def
  by (auto split: ptr.splits sexp.splits payload.splits if_splits)

lemma memcpy_not_Raised: "memcpy d src n w \<noteq> (Raised e, w')"
  by (simp add: memcpy_def write_bytes_not_Raised)

lemma memset_not_Raised: "memset d c n w \<noteq> (Raised e, w')"
  by (simp add: memset_def write_bytes_not_Raised)

lemma r_ssize_mult_cases:
  "r_ssize_mult x y = Returned (x * y) \<and> R_SSIZE_MIN \<le> x * y \<and> x * y \<le> R_SSIZE_MAX
   \<or> r_ssize_mult x y = Raised OverflowError \<and> (x * y < R_SSIZE_MIN \<or> R_SSIZE_MAX < x * y)"
  by (auto simp: r_ssize_mult_def)

lemma r_arr_push_back_Raised:
  assumes "r_arr_push_back p e w = (Raised err, p', w')"
  shows "p' = p\<lparr>count := wrap_ssize (count p + 1)\<rparr> \<and> w' = w"
proof -
  let ?p1 = "p\<lparr>count := wrap_ssize (count p + 1)\<rparr>"
  show ?thesis
  proof (cases "count ?p1 > capacity ?p1")
    case False
    with assms show ?thesis
      by (auto simp: r_arr_push_back_def Let_def memcpy_not_Raised memset_not_Raised
          split: option.splits prod.splits)
  next
    case True
    show ?thesis
    proof (cases "r_ssize_mult (capacity ?p1) (growth_factor ?p1)")
      case (Returned n)
      obtain r q v where res: "r_arr_resize ?p1 n w = (r, q, v)"
        by (cases "r_arr_resize ?p1 n w") auto
      with assms True Returned show ?thesis
        by (cases r)
          (auto simp: r_arr_push_back_def Let_def memcpy_not_Raised memset_not_Raised
            dest: r_arr_resize_Raised split: option.splits prod.splits)
    next
      case (Raised x)
      with assms True show ?thesis
        by (auto simp: r_arr_push_back_def Let_def)
    next
      case Undefined
      with assms True show ?thesis
        by (auto simp: r_arr_push_back_def Let_def)
    qed
  qed
qed

lemma r_arr_push_back_Returned:
  assumes "r_arr_push_back p e w = (Returned u, p', w')"
  obtains w1 where
    "count p' \<le> capacity p' \<and> p' = p\<lparr>count := wrap_ssize (count p + 1)\<rparr> \<and> w1 = w
     \<or> capacity p < wrap_ssize (count p + 1) \<and>
       R_SSIZE_MIN \<le> capacity p * growth_factor p \<and>
       capacity p * growth_factor p \<le> R_SSIZE_MAX \<and>
       r_arr_resize (p\<lparr>count := wrap_ssize (count p + 1)\<rparr>)
         (capacity p * growth_factor p) w = (Returned (), p', w1)"
    "0 \<le> elt_byte_size p'"
    "write_bytes (r_arr_ptr_back p')
       (case e of Some elt \<Rightarrow> map elt [0..<nat (elt_byte_size p')]
        | None \<Rightarrow> replicate (nat (elt_byte_size p')) 0) w1 = (Returned (), w')"
proof -
  let ?p1 = "p\<lparr>count := wrap_ssize (count p + 1)\<rparr>"
  show ?thesis
  proof (cases "count ?p1 > capacity ?p1")
    case False
    with assms that[of w] show ?thesis
      by (auto simp: r_arr_push_back_def Let_def memcpy_def memset_def
          split: option.splits prod.splits if_splits)
  next
    case True
    from r_ssize_mult_cases[of "capacity ?p1" "growth_factor ?p1"]
    show ?thesis
    proof
      assume m: "r_ssize_mult (capacity ?p1) (growth_factor ?p1) =
          Returned (capacity ?p1 * growth_factor ?p1) \<and>
          R_SSIZE_MIN \<le> capacity ?p1 * growth_factor ?p1 \<and>
          capacity ?p1 * growth_factor ?p1 \<le> R_SSIZE_MAX"
      obtain r q v where res:
        "r_arr_resize ?p1 (capacity p * growth_factor p) w = (r, q, v)"
        by (cases "r_arr_resize ?p1 (capacity p * growth_factor p) w") auto
      with assms True m that[of v] show ?thesis
        by (cases r)
          (auto simp: r_arr_push_back_def Let_def memcpy_def memset_def
            split: option.splits prod.splits if_splits)
    next
      assume "r_ssize_mult (capacity ?p1) (growth_factor ?p1) = Raised OverflowError \<and>
          (capacity ?p1 * growth_factor ?p1 < R_SSIZE_MIN \<or>
           R_SSIZE_MAX < capacity ?p1 * growth_factor ?p1)"
      with assms True show ?thesis
        by (auto simp: r_arr_push_back_def Let_def)
    qed
  qed
qed

lemma read_after_write:
  assumes "write_bytes d src w = (Returned (), w')"
  shows "read_bytes d (int (length src)) w' = Some src"
  using assms
  unfolding write_bytes_def read_bytes_def
  by (auto split: ptr.splits sexp.splits payload.splits if_splits)

lemma r_arr_resize_fields:
  assumes "r_arr_resize p n w = (Returned u, p', w')"
  shows "count p' = r_ssize_min (count p) n" "capacity p' = n"
    "elt_byte_size p' = elt_byte_size p" "growth_factor p' = growth_factor p"
    "type p' = type p" "shelter p' = shelter p" "\<exists>x. v_data p' = Ptr x 0"
  using assms by (auto elim!: r_arr_resize_Returned)

lemma r_arr_push_back_fields:
  assumes "r_arr_push_back p e w = (Returned u, p', w')"
  shows "elt_byte_size p' = elt_byte_size p" "growth_factor p' = growth_factor p"
    "type p' = type p" "shelter p' = shelter p"
  using assms
  by (auto elim!: r_arr_push_back_Returned dest: r_arr_resize_fields)

lemma int_created: "r_new_dyn_vector r_type_integer 1 host0 = (Returned int_arr, int_world)"
  by (simp add: int_world_def int_arr_def prod_eq_iff)
    (simp add: host_defs dyn_array_defs host0_def replicate_2)

lemma int_world_heap:
  "heap int_world =
     [\<lparr>payload = Slots [Sym ''rlang_dyn_array''], attrib = [], obj_bit = False\<rparr>,
      \<lparr>payload = Slots [Ref 2, Ref 3], attrib = [(Sym ''class'', Ref 0)], obj_bit = True\<rparr>,
      \<lparr>payload = Bytes r_type_raw (replicate 56 170), attrib = [], obj_bit = False\<rparr>,
      \<lparr>payload = Bytes r_type_integer (replicate 4 170), attrib = [], obj_bit = False\<rparr>]"
  using arg_cong[OF r_new_dyn_vector_Returned(3)[OF int_created], of heap]
  by (simp add: host0_def sizeof_r_dyn_array_def map_replicate_const)

lemma int_world_eq:
  "int_world = host0\<lparr>heap :=
     [\<lparr>payload = Slots [Sym ''rlang_dyn_array''], attrib = [], obj_bit = False\<rparr>,
      \<lparr>payload = Slots [Ref 2, Ref 3], attrib = [(Sym ''class'', Ref 0)], obj_bit = True\<rparr>,
      \<lparr>payload = Bytes r_type_raw (replicate 56 170), attrib = [], obj_bit = False\<rparr>,
      \<lparr>payload = Bytes r_type_integer (replicate 4 170), attrib = [], obj_bit = False\<rparr>]\<rparr>"
  by (simp add: int_world_def host_defs dyn_array_defs host0_def replicate_2
      map_replicate_const)

lemma small_created:
  "r_new_dyn_vector r_type_integer 1 host_small = (Returned int_arr, small_world)"
  by (simp add: small_world_def int_arr_def prod_eq_iff)
    (simp add: host_defs dyn_array_defs host_small_def host0_def replicate_2)

lemma small_world_eq:
  "small_world = host_small\<lparr>heap :=
     [\<lparr>payload = Slots [Sym ''rlang_dyn_array''], attrib = [], obj_bit = False\<rparr>,
      \<lparr>payload = Slots [Ref 2, Ref 3], attrib = [(Sym ''class'', Ref 0)], obj_bit = True\<rparr>,
      \<lparr>payload = Bytes r_type_raw (replicate 56 170), attrib = [], obj_bit = False\<rparr>,
      \<lparr>payload = Bytes r_type_integer (replicate 4 170), attrib = [], obj_bit = False\<rparr>]\<rparr>"
  by (simp add: small_world_def host_defs dyn_array_defs host_small_def host0_def replicate_2
      map_replicate_const)

lemma full_reached:
  "r_arr_push_back int_arr (Some elt1234) small_world = (Returned (), full_arr, full_world)"
  by (simp add: full_world_def prod_eq_iff)
    (simp add: full_arr_def int_arr_def small_world_eq host_small_def host0_def
      host_defs dyn_array_defs Let_def)

lemma full_world_eq:
  "full_world = host_small\<lparr>heap :=
     [\<lparr>payload = Slots [Sym ''rlang_dyn_array''], attrib = [], obj_bit = False\<rparr>,
      \<lparr>payload = Slots [Ref 2, Ref 3], attrib = [(Sym ''class'', Ref 0)], obj_bit = True\<rparr>,
      \<lparr>payload = Bytes r_type_raw (replicate 56 170), attrib = [], obj_bit = False\<rparr>,
      \<lparr>payload = Bytes r_type_integer [1, 2, 3, 4], attrib = [], obj_bit = False\<rparr>]\<rparr>"
  by (simp add: full_world_def int_arr_def small_world_eq host_small_def host0_def
      host_defs dyn_array_defs Let_def elt1234_def upt_rec)

lemma r_new_dyn_vector_arr_ok:
  assumes "r_new_dyn_vector ty cap w = (Returned p, w')" and "cap \<le> R_SSIZE_MAX"
  shows "arr_ok w' p"
  using r_new_dyn_vector_Returned[OF assms(1)] assms(2) elt_size_pos[of ty]
  by (simp add: arr_ok_def buf_ok_def nth_append)

lemma r_new_dyn_vector_backing:
  assumes "r_new_dyn_vector ty cap w = (Returned p, w')"
  shows "\<exists>x. v_data p = Ptr x 0 \<and> r_list_get (shelter p) 1 w' = (Returned x, w') \<and>
           r_length x w' = Some cap"
  using r_new_dyn_vector_Returned[OF assms] elt_size_pos[of ty]
  by (simp add: r_list_get_def r_length_def nth_append)

lemma dbl_created: "r_new_dyn_vector r_type_double 1 host0 = (Returned dbl_arr, dbl_world)"
  by (simp add: dbl_world_def dbl_arr_def prod_eq_iff)
    (simp add: host_defs dyn_array_defs host0_def replicate_2)

lemma dbl_world_eq:
  "dbl_world = host0\<lparr>heap :=
     [\<lparr>payload = Slots [Sym ''rlang_dyn_array''], attrib = [], obj_bit = False\<rparr>,
      \<lparr>payload = Slots [Ref 2, Ref 3], attrib = [(Sym ''class'', Ref 0)], obj_bit = True\<rparr>,
      \<lparr>payload = Bytes r_type_raw (replicate 56 170), attrib = [], obj_bit = False\<rparr>,
      \<lparr>payload = Bytes r_type_double (replicate 8 170), attrib = [], obj_bit = False\<rparr>]\<rparr>"
  by (simp add: dbl_world_def host_defs dyn_array_defs host0_def replicate_2
      map_replicate_const)

lemma r_arr_resize_request:
  assumes "r_arr_resize p n w = (Returned u, p', w')"
  shows "\<exists>x. r_list_get (shelter p') 1 w' = (Returned x, w') \<and> v_data p' = Ptr x 0 \<and>
           x = Ref (length (heap w)) \<and>
           r_length x w' = Some (wrap_ssize (elt_byte_size p * n))"
  using assms elt_size_pos[of "type p"]
  by (auto elim!: r_arr_resize_Returned
      simp: r_list_get_def r_length_def nth_append min_def)





lemma write_bytes_Returned_offset:
  "write_bytes (Ptr x off) src w = (Returned u, w') \<Longrightarrow> 0 \<le> off"
  unfolding write_bytes_def
  by (auto split: sexp.splits payload.splits if_splits)

lemma wrap_ssize_succ:
  assumes "0 \<le> c" "c \<le> R_SSIZE_MAX"
  shows "c < R_SSIZE_MAX \<and> wrap_ssize (c + 1) = c + 1 \<or>
         c = R_SSIZE_MAX \<and> wrap_ssize (c + 1) = R_SSIZE_MIN"
proof (cases "c < R_SSIZE_MAX")
  case True
  with assms(1) have "wrap_ssize (c + 1) = c + 1"
    by (intro wrap_ssize_id) (simp_all add: R_SSIZE_MIN_def)
  with True show ?thesis by simp
next
  case False
  with assms(2) have "c = R_SSIZE_MAX" by simp
  then show ?thesis
    by (simp add: wrap_ssize_def R_SSIZE_MAX_def R_SSIZE_MIN_def)
qed

lemma push_step:
  assumes inv: "push_inv c p" and run: "r_arr_push_back p e w = (Returned u, p', w')"
  shows "push_inv c p' \<and> count p' = count p + 1 \<and> capacity p \<le> capacity p'"
proof -
  from inv have g: "growth_factor p = 2" and c0: "0 \<le> count p" and cc: "count p \<le> capacity p"
    and c1: "1 \<le> c" and lo: "c \<le> capacity p" and hi: "capacity p \<le> R_SSIZE_MAX"
    and sz: "0 < elt_byte_size p"
    by (simp_all add: push_inv_def)
  from inv obtain x where vd: "v_data p = Ptr x 0" by (auto simp: push_inv_def)
  from inv obtain k where k: "capacity p = c * 2 ^ k" by (auto simp: push_inv_def)
  let ?p1 = "p\<lparr>count := wrap_ssize (count p + 1)\<rparr>"
  from run obtain w1 where
    alt: "count p' \<le> capacity p' \<and> p' = ?p1 \<and> w1 = w
     \<or> capacity p < wrap_ssize (count p + 1) \<and>
       R_SSIZE_MIN \<le> capacity p * growth_factor p \<and>
       capacity p * growth_factor p \<le> R_SSIZE_MAX \<and>
       r_arr_resize ?p1 (capacity p * growth_factor p) w = (Returned (), p', w1)"
    and wr: "write_bytes (r_arr_ptr_back p')
       (case e of Some elt \<Rightarrow> map elt [0..<nat (elt_byte_size p')]
        | None \<Rightarrow> replicate (nat (elt_byte_size p')) 0) w1 = (Returned (), w')"
    by (rule r_arr_push_back_Returned)
  from wrap_ssize_succ[OF c0] cc hi
  have w: "wrap_ssize (count p + 1) = count p + 1 \<or> wrap_ssize (count p + 1) = R_SSIZE_MIN"
    by auto
  from alt show ?thesis
  proof
    assume a: "count p' \<le> capacity p' \<and> p' = ?p1 \<and> w1 = w"
    have "wrap_ssize (count p + 1) \<noteq> R_SSIZE_MIN"
    proof
      assume m: "wrap_ssize (count p + 1) = R_SSIZE_MIN"
      with a vd have "r_arr_ptr_back p' = Ptr x ((R_SSIZE_MIN - 1) * elt_byte_size p)"
        by (simp add: r_arr_ptr_back_def r_arr_ptr_def)
      with wr have "0 \<le> (R_SSIZE_MIN - 1) * elt_byte_size p"
        by (auto dest: write_bytes_Returned_offset)
      moreover have "(R_SSIZE_MIN - 1) * elt_byte_size p < 0"
        using sz by (simp add: R_SSIZE_MIN_def mult_neg_pos)
      ultimately show False by simp
    qed
    with w have "wrap_ssize (count p + 1) = count p + 1" by simp
    with a inv show ?thesis
      by (auto simp: push_inv_def)
  next
    assume b: "capacity p < wrap_ssize (count p + 1) \<and>
       R_SSIZE_MIN \<le> capacity p * growth_factor p \<and>
       capacity p * growth_factor p \<le> R_SSIZE_MAX \<and>
       r_arr_resize ?p1 (capacity p * growth_factor p) w = (Returned (), p', w1)"
    with w lo c1 have wc: "wrap_ssize (count p + 1) = count p + 1"
      by (auto simp: R_SSIZE_MIN_def)
    with b cc have full: "count p = capacity p" by simp
    from b have res: "r_arr_resize ?p1 (capacity p * growth_factor p) w = (Returned (), p', w1)"
      by simp
    note f = r_arr_resize_fields[OF res]
    from f(1) wc full g lo c1 have cnt: "count p' = count p + 1"
      by (simp add: r_ssize_min_def)
    from f(2) g have cap: "capacity p' = capacity p * 2" by simp
    from cap k have "capacity p' = c * 2 ^ Suc k" by simp
    then have ex: "\<exists>k. capacity p' = c * 2 ^ k" by blast
    from b g cap have hi': "capacity p' \<le> R_SSIZE_MAX" by simp
    from f(3,4,7) g sz cnt cap c0 c1 lo hi' full ex show ?thesis
      by (simp add: push_inv_def)
  qed
qed

lemma push_all_inv:
  "push_inv c p \<Longrightarrow> push_all p es w = (Returned u, p', w') \<Longrightarrow>
     push_inv c p' \<and> count p' = count p + int (length es) \<and> capacity p \<le> capacity p'"
proof (induction es arbitrary: p w)
  case Nil
  then show ?case by simp
next
  case (Cons e es)
  obtain r p1 w1 where step: "r_arr_push_back p e w = (r, p1, w1)"
    by (cases "r_arr_push_back p e w") auto
  with Cons.prems(2) have r: "r = Returned ()" and rest: "push_all p1 es w1 = (Returned u, p', w')"
    by (cases r; simp)+
  from push_step[OF Cons.prems(1) step[unfolded r]]
  have i1: "push_inv c p1" and c1: "count p1 = count p + 1" and m1: "capacity p \<le> capacity p1"
    by simp_all
  from Cons.IH[OF i1 rest] c1 m1 show ?case by simp
qed

lemma push_all_append:
  "push_all p (es1 @ es2) w =
     (case push_all p es1 w of
        (Returned _, p1, w1) \<Rightarrow> push_all p1 es2 w1
      | (Raised err, p1, w1) \<Rightarrow> (Raised err, p1, w1)
      | (Undefined, p1, w1) \<Rightarrow> (Undefined, p1, w1))"
proof (induction es1 arbitrary: p w)
  case Nil
  then show ?case by simp
next
  case (Cons e es1)
  obtain r p1 w1 where step: "r_arr_push_back p e w = (r, p1, w1)"
    by (cases "r_arr_push_back p e w") auto
  with Cons.IH show ?case
    by (cases r) simp_all
qed

lemma created_push_inv:
  assumes "r_new_dyn_vector ty cap w = (Returned p, w')" "1 \<le> cap" "cap \<le> R_SSIZE_MAX"
  shows "push_inv cap p"
proof -
  have "cap = cap * 2 ^ 0" by simp
  then have "\<exists>k. cap = cap * 2 ^ k" by blast
  with r_new_dyn_vector_Returned(2)[OF assms(1)] assms(2,3) elt_size_pos[of ty]
  show ?thesis by (simp add: push_inv_def)
qed

lemma zero_created:
  "r_new_dyn_vector r_type_integer 0 host0 = (Returned zero_arr, zero_world)"
  by (simp add: zero_world_def zero_arr_def prod_eq_iff)
    (simp add: host_defs dyn_array_defs host0_def replicate_2)

lemma zero_world_eq:
  "zero_world = host0\<lparr>heap :=
     [\<lparr>payload = Slots [Sym ''rlang_dyn_array''], attrib = [], obj_bit = False\<rparr>,
      \<lparr>payload = Slots [Ref 2, Ref 3], attrib = [(Sym ''class'', Ref 0)], obj_bit = True\<rparr>,
      \<lparr>payload = Bytes r_type_raw (replicate 56 170), attrib = [], obj_bit = False\<rparr>,
      \<lparr>payload = Bytes r_type_integer [], attrib = [], obj_bit = False\<rparr>]\<rparr>"
  by (simp add: zero_world_def host_defs dyn_array_defs host0_def replicate_2
      map_replicate_const)

section \<open>Arrays in place: what resize keeps and when push returns\<close>

text \<open>
  The lemmas of this section are about arrays (\<open>arr_ok\<close>) and sizes that fit
  \<^verbatim>\<open>r_ssize\<close>. Where the product \<open>elt_byte_size * n\<close> does not overflow, a resize that
  returns keeps the array in place and keeps every element below the old and the new
  capacity (\<open>r_arr_resize_truncates_grows\<close>). A push that returns has written its
  element at position \<open>count - 1\<close> (\<open>r_arr_push_back_reads_back\<close>) and has kept the
  elements before it (\<open>r_arr_push_back_keeps\<close>). A push onto an array with room returns;
  a push onto a full array of capacity at least 1 returns when the host has the memory
  and raises \<open>AllocationError\<close> when it has not (\<open>r_arr_push_back_safe\<close>); so on a
  host with memory every sequence of pushes onto a created array of capacity at least 1
  returns (\<open>created_push_all_returns\<close>).
\<close>

lemma take_drop_prefix:
  assumes "k + m \<le> n" "k + m \<le> length bs"
  shows "take m (drop k (take n bs @ js)) = take m (drop k bs)"
proof -
  from assms have "k \<le> length (take n bs)" by simp
  then have "drop k (take n bs @ js) = drop k (take n bs) @ js" by simp
  moreover from assms have "m \<le> length (drop k (take n bs))" by simp
  ultimately have "take m (drop k (take n bs @ js)) = take m (drop k (take n bs))" by simp
  also have "\<dots> = take m (take (n - k) (drop k bs))" by (simp add: drop_take)
  also from assms have "\<dots> = take m (drop k bs)" by (simp add: min_def)
  finally show ?thesis .
qed

lemma slot_bytes:
  assumes "0 < e" "0 \<le> i" "i < c" "c * e \<le> n"
  shows "0 \<le> i * e" "i * e + e \<le> (n::int)"
proof -
  from assms show "0 \<le> i * e" by simp
  from assms have "(i + 1) * e \<le> c * e"
    by (intro mult_right_mono) simp_all
  with assms(4) show "i * e + e \<le> n" by (simp add: algebra_simps)
qed

lemma buf_okE:
  assumes "buf_ok w p"
  obtains s c v bs where
    "shelter p = Ref s" "s < length (heap w)" "payload (heap w ! s) = Slots [c, Ref v]"
    "v < length (heap w)" "v_data p = Ptr (Ref v) 0"
    "payload (heap w ! v) = Bytes (type p) bs"
    "capacity p * elt_byte_size p \<le> int (length bs)"
    "elt_byte_size p = r_vec_elt_sizeof0 (type p)" "0 < elt_byte_size p"
    "capacity p \<le> R_SSIZE_MAX"
proof -
  from assms obtain s where s: "shelter p = Ref s" "s < length (heap w)"
    by (auto simp: buf_ok_def split: sexp.splits)
  with assms obtain ss where ss: "payload (heap w ! s) = Slots ss" "length ss = 2"
    by (auto simp: buf_ok_def split: payload.splits)
  then obtain c d where cd: "ss = [c, d]"
    by (cases ss; cases "tl ss"; auto)
  with assms s ss obtain v where v: "d = Ref v" "v < length (heap w)" "v_data p = Ptr (Ref v) 0"
    by (auto simp: buf_ok_def split: sexp.splits)
  with assms s ss cd obtain bs where
    "payload (heap w ! v) = Bytes (type p) bs" "capacity p * elt_byte_size p \<le> int (length bs)"
    by (auto simp: buf_ok_def split: payload.splits)
  with that s ss cd v assms elt_size_pos[of "type p"] show ?thesis
    by (auto simp: buf_ok_def)
qed

lemma buf_ok_get:
  assumes ok: "buf_ok w p" and i: "0 \<le> i" "i < capacity p"
  shows "\<exists>v bs. v_data p = Ptr (Ref v) 0 \<and> v < length (heap w) \<and>
           payload (heap w ! v) = Bytes (type p) bs \<and>
           nat (i * elt_byte_size p) + nat (elt_byte_size p) \<le> length bs \<and>
           r_arr_get p i w =
             Some (take (nat (elt_byte_size p)) (drop (nat (i * elt_byte_size p)) bs))"
proof -
  from ok obtain s c v bs where f:
    "v < length (heap w)" "v_data p = Ptr (Ref v) 0"
    "payload (heap w ! v) = Bytes (type p) bs"
    "capacity p * elt_byte_size p \<le> int (length bs)"
    "0 < elt_byte_size p"
    by (auto elim: buf_okE)
  note b = slot_bytes[OF f(5) i f(4)]
  from b f(5) have nb: "nat (i * elt_byte_size p) + nat (elt_byte_size p) \<le> length bs"
    by linarith
  from f b
  have "r_arr_get p i w =
      Some (take (nat (elt_byte_size p)) (drop (nat (i * elt_byte_size p)) bs))"
    by (simp add: r_arr_get_def r_arr_ptr_def read_bytes_def)
  with f nb show ?thesis by blast
qed

lemma r_arr_resize_buf_ok:
  assumes ok: "buf_ok w p" and run: "r_arr_resize p n w = (Returned u, p', w')"
    and n0: "0 \<le> n" and fit: "elt_byte_size p * n \<le> R_SSIZE_MAX"
  shows "buf_ok w' p'"
    and "\<exists>bs. payload (heap w ! (case v_data p of Ptr (Ref v) _ \<Rightarrow> v)) = Bytes (type p) bs \<and>
           payload (heap w' ! length (heap w)) =
             Bytes (type p) (take (nat (elt_byte_size p * n * elt_byte_size p)) bs @
               map (junk w (length (heap w)))
                 [length bs..<nat (elt_byte_size p * n * elt_byte_size p)])"
proof -
  from ok obtain s c v bs where f:
    "shelter p = Ref s" "s < length (heap w)" "payload (heap w ! s) = Slots [c, Ref v]"
    "v < length (heap w)" "v_data p = Ptr (Ref v) 0"
    "payload (heap w ! v) = Bytes (type p) bs"
    "elt_byte_size p = r_vec_elt_sizeof0 (type p)" "0 < elt_byte_size p"
    by (auto elim: buf_okE)
  from n0 f(8) have "0 \<le> elt_byte_size p * n" by simp
  with fit have wr: "wrap_ssize (elt_byte_size p * n) = elt_byte_size p * n"
    by (intro wrap_ssize_id) (simp_all add: R_SSIZE_MIN_def)
  let ?nb = "nat (elt_byte_size p * n * elt_byte_size p)"
  from n0 f(8) have "n * 1 \<le> n * elt_byte_size p"
    by (intro mult_left_mono) simp_all
  then have nle: "n \<le> elt_byte_size p * n" by (simp add: mult.commute)
  with fit have nmax: "n \<le> R_SSIZE_MAX" by simp
  from f(8) nle have "n * elt_byte_size p \<le> elt_byte_size p * n * elt_byte_size p"
    by (intro mult_right_mono) simp_all
  with n0 f(8) have room: "n * elt_byte_size p \<le> int ?nb" by simp
  define nbs where
    "nbs = take ?nb bs @ map (junk w (length (heap w))) [length bs..<?nb]"
  have len: "length nbs = ?nb" by (simp add: nbs_def)
  from run f wr
  have p': "p' = p\<lparr>count := r_ssize_min (count p) n, capacity := n,
                  v_data := Ptr (Ref (length (heap w))) 0\<rparr>"
    and w': "heap w' =
       (heap w)[s := (heap w ! s)\<lparr>payload := Slots [c, Ref (length (heap w))]\<rparr>] @
       [(heap w ! v)\<lparr>payload := Bytes (type p) nbs\<rparr>]"
    by (auto elim!: r_arr_resize_Returned simp: nbs_def)
  from f p' w' nmax room len show "buf_ok w' p'"
    by (simp add: buf_ok_def nth_append)
  from f w' show "\<exists>bs. payload (heap w ! (case v_data p of Ptr (Ref v) _ \<Rightarrow> v)) =
           Bytes (type p) bs \<and>
           payload (heap w' ! length (heap w)) =
             Bytes (type p) (take (nat (elt_byte_size p * n * elt_byte_size p)) bs @
               map (junk w (length (heap w)))
                 [length bs..<nat (elt_byte_size p * n * elt_byte_size p)])"
    by (simp add: nth_append nbs_def)
qed

lemma r_arr_resize_keeps:
  assumes ok: "buf_ok w p" and run: "r_arr_resize p n w = (Returned u, p', w')"
    and fit: "elt_byte_size p * n \<le> R_SSIZE_MAX"
    and i: "0 \<le> i" "i < n" "i < capacity p"
  shows "r_arr_get p' i w' = r_arr_get p i w \<and> r_arr_get p i w \<noteq> None"
proof -
  from buf_ok_get[OF ok i(1,3)] obtain v bs where g:
    "v_data p = Ptr (Ref v) 0" "v < length (heap w)"
    "payload (heap w ! v) = Bytes (type p) bs"
    "nat (i * elt_byte_size p) + nat (elt_byte_size p) \<le> length bs"
    "r_arr_get p i w =
       Some (take (nat (elt_byte_size p)) (drop (nat (i * elt_byte_size p)) bs))"
    by blast
  from i have n0: "0 \<le> n" by simp
  let ?nb = "nat (elt_byte_size p * n * elt_byte_size p)"
  from r_arr_resize_buf_ok[OF ok run n0 fit] g(1,3)
  have ok': "buf_ok w' p'"
    and new: "payload (heap w' ! length (heap w)) =
       Bytes (type p) (take ?nb bs @ map (junk w (length (heap w))) [length bs..<?nb])"
    by simp_all
  from run
  have fl: "capacity p' = n" "elt_byte_size p' = elt_byte_size p" "type p' = type p"
    "v_data p' = Ptr (Ref (length (heap w))) 0"
    by (auto elim!: r_arr_resize_Returned)
  from buf_ok_get[OF ok' i(1)] i(2) fl new
  have "nat (i * elt_byte_size p) + nat (elt_byte_size p) \<le>
          length (take ?nb bs @ map (junk w (length (heap w))) [length bs..<?nb])"
    and get': "r_arr_get p' i w' =
      Some (take (nat (elt_byte_size p))
        (drop (nat (i * elt_byte_size p))
          (take ?nb bs @ map (junk w (length (heap w))) [length bs..<?nb])))"
    by auto
  then have fitnb: "nat (i * elt_byte_size p) + nat (elt_byte_size p) \<le> ?nb"
    by simp
  from get' take_drop_prefix[OF fitnb g(4)] g(5) show ?thesis by simp
qed

lemma r_arr_resize_truncates_grows:
  assumes ok: "arr_ok w p" and run: "r_arr_resize p n w = (Returned u, p', w')"
    and n0: "0 \<le> n" and fit: "elt_byte_size p * n \<le> R_SSIZE_MAX"
  shows "arr_ok w' p'"
    and "n < count p \<Longrightarrow> count p' = n \<and> capacity p' = n \<and>
           (\<forall>i. 0 \<le> i \<and> i < n \<longrightarrow>
              r_arr_get p' i w' = r_arr_get p i w \<and> r_arr_get p i w \<noteq> None)"
    and "capacity p \<le> n \<Longrightarrow> capacity p' = n \<and> count p' = count p \<and>
           (\<forall>i. 0 \<le> i \<and> i < count p \<longrightarrow>
              r_arr_get p' i w' = r_arr_get p i w \<and> r_arr_get p i w \<noteq> None)"
proof -
  from ok have b: "buf_ok w p" and c: "0 \<le> count p" "count p \<le> capacity p"
    by (simp_all add: arr_ok_def)
  note f = r_arr_resize_fields(1,2)[OF run]
  from r_arr_resize_buf_ok(1)[OF b run n0 fit] f c n0 show "arr_ok w' p'"
    by (simp add: arr_ok_def r_ssize_min_def)
  show "count p' = n \<and> capacity p' = n \<and>
           (\<forall>i. 0 \<le> i \<and> i < n \<longrightarrow>
              r_arr_get p' i w' = r_arr_get p i w \<and> r_arr_get p i w \<noteq> None)"
    if "n < count p"
    using that f c r_arr_resize_keeps[OF b run fit]
    by (simp add: r_ssize_min_def)
  show "capacity p' = n \<and> count p' = count p \<and>
           (\<forall>i. 0 \<le> i \<and> i < count p \<longrightarrow>
              r_arr_get p' i w' = r_arr_get p i w \<and> r_arr_get p i w \<noteq> None)"
    if "capacity p \<le> n"
    using that f c r_arr_resize_keeps[OF b run fit]
    by (auto simp: r_ssize_min_def)
qed

lemma buf_ok_count [simp]: "buf_ok w (p\<lparr>count := c\<rparr>) = buf_ok w p"
  by (simp add: buf_ok_def split: sexp.splits payload.splits)

lemma write_in_capacity:
  assumes ok: "buf_ok w p" and i: "0 \<le> i" "i < capacity p"
    and len: "length src = nat (elt_byte_size p)"
  shows "\<exists>w'. write_bytes (r_arr_ptr p i) src w = (Returned (), w') \<and> buf_ok w' p"
proof -
  from ok obtain s c v bs where f:
    "shelter p = Ref s" "s < length (heap w)" "payload (heap w ! s) = Slots [c, Ref v]"
    "v < length (heap w)" "v_data p = Ptr (Ref v) 0"
    "payload (heap w ! v) = Bytes (type p) bs"
    "capacity p * elt_byte_size p \<le> int (length bs)"
    "elt_byte_size p = r_vec_elt_sizeof0 (type p)" "0 < elt_byte_size p"
    "capacity p \<le> R_SSIZE_MAX"
    by (rule buf_okE)
  note b = slot_bytes[OF f(9) i f(7)]
  from f(3,6) have sv: "s \<noteq> v" by auto
  define nbs where
    "nbs = take (nat (i * elt_byte_size p)) bs @ src @
           drop (nat (i * elt_byte_size p) + length src) bs"
  from b f(9) len have "nat (i * elt_byte_size p) + length src \<le> length bs"
    by linarith
  then have nlen: "length nbs = length bs"
    by (simp add: nbs_def)
  from f b len
  have wr: "write_bytes (r_arr_ptr p i) src w =
      (Returned (), w\<lparr>heap := (heap w)[v := (heap w ! v)\<lparr>payload := Bytes (type p) nbs\<rparr>]\<rparr>)"
    by (simp add: r_arr_ptr_def write_bytes_def nbs_def)
  from f sv nlen
  have "buf_ok (w\<lparr>heap := (heap w)[v := (heap w ! v)\<lparr>payload := Bytes (type p) nbs\<rparr>]\<rparr>) p"
    by (simp add: buf_ok_def)
  with wr show ?thesis by blast
qed

lemma r_arr_resize_outcome:
  assumes ok: "buf_ok w p" and n0: "0 \<le> n" and fit: "elt_byte_size p * n \<le> R_SSIZE_MAX"
  shows "if mem_ok w (length (heap w)) (nat (elt_byte_size p * n * elt_byte_size p))
         then \<exists>p' w'. r_arr_resize p n w = (Returned (), p', w')
         else r_arr_resize p n w = (Raised AllocationError, p, w)"
proof -
  from ok obtain s c v bs where f:
    "shelter p = Ref s" "s < length (heap w)" "payload (heap w ! s) = Slots [c, Ref v]"
    "v < length (heap w)" "payload (heap w ! v) = Bytes (type p) bs"
    "elt_byte_size p = r_vec_elt_sizeof0 (type p)" "0 < elt_byte_size p"
    by (auto elim: buf_okE)
  from n0 f(7) have nn: "0 \<le> elt_byte_size p * n" by simp
  with fit have wr: "wrap_ssize (elt_byte_size p * n) = elt_byte_size p * n"
    by (intro wrap_ssize_id) (simp_all add: R_SSIZE_MIN_def)
  from f wr nn show ?thesis
    by (simp add: r_arr_resize_def r_list_get_def r_vec_resize0_def alloc_def r_list_poke_def
        nth_append Let_def)
qed

lemma r_arr_push_back_safe:
  assumes ok: "arr_ok w p" and g: "growth_factor p = 2" and c1: "1 \<le> capacity p"
    and fit: "elt_byte_size p * (2 * capacity p) \<le> R_SSIZE_MAX"
  shows "if count p < capacity p \<or>
            mem_ok w (length (heap w)) (nat (elt_byte_size p * (2 * capacity p) * elt_byte_size p))
         then \<exists>p' w'. r_arr_push_back p e w = (Returned (), p', w') \<and> arr_ok w' p'
         else r_arr_push_back p e w =
                (Raised AllocationError, p\<lparr>count := count p + 1\<rparr>, w)"
proof -
  from ok have b: "buf_ok w p" and c: "0 \<le> count p" "count p \<le> capacity p"
    by (simp_all add: arr_ok_def)
  from b have pos: "0 < elt_byte_size p" by (auto elim: buf_okE)
  from pos c1 have "(2 * capacity p) * 1 \<le> (2 * capacity p) * elt_byte_size p"
    by (intro mult_left_mono) simp_all
  then have "2 * capacity p \<le> elt_byte_size p * (2 * capacity p)"
    by (simp only: mult_1_right mult.commute)
  with fit have dbl: "2 * capacity p \<le> R_SSIZE_MAX" by linarith
  with c c1 have wc: "wrap_ssize (count p + 1) = count p + 1"
    by (intro wrap_ssize_id) (simp_all add: R_SSIZE_MIN_def)
  then have p1: "p\<lparr>count := wrap_ssize (count p + 1)\<rparr> = p\<lparr>count := count p + 1\<rparr>"
    by simp
  let ?p1 = "p\<lparr>count := count p + 1\<rparr>"
  let ?src = "\<lambda>q. case e of Some elt \<Rightarrow> map elt [0..<nat (elt_byte_size q)]
                | None \<Rightarrow> replicate (nat (elt_byte_size q)) 0"
  have wrq: "(case e of Some elt \<Rightarrow> memcpy (r_arr_ptr_back q) elt (elt_byte_size q) v
              | None \<Rightarrow> memset (r_arr_ptr_back q) 0 (elt_byte_size q) v) =
             write_bytes (r_arr_ptr q (count q - 1)) (?src q) v"
    if "0 < elt_byte_size q" for q v
    using that by (simp add: memcpy_def memset_def r_arr_ptr_back_def split: option.splits)
  have srclen: "length (?src q) = nat (elt_byte_size q)" for q
    by (simp split: option.splits)
  show ?thesis
  proof (cases "count p < capacity p")
    case True
    have b1: "buf_ok w ?p1" using b by simp
    from write_in_capacity[OF b1, of "count p" "?src ?p1"] c True srclen[of ?p1]
    obtain w' where wr: "write_bytes (r_arr_ptr ?p1 (count p)) (?src ?p1) w = (Returned (), w')"
      and b': "buf_ok w' ?p1"
      by auto
    from b' c True have "arr_ok w' ?p1" by (simp add: arr_ok_def)
    moreover from True wr pos wrq[of ?p1 w]
    have "r_arr_push_back p e w = (Returned (), ?p1, w')"
      by (simp add: r_arr_push_back_def p1 Let_def)
    ultimately show ?thesis using True by auto
  next
    case False
    with c have full: "count p = capacity p" by simp
    from wc full have wc': "wrap_ssize (capacity p + 1) = capacity p + 1" by simp
    have b1: "buf_ok w ?p1" using b by simp
    from dbl c1 have mult: "r_ssize_mult (capacity p) 2 = Returned (2 * capacity p)"
      by (simp add: r_ssize_mult_def R_SSIZE_MIN_def mult.commute)
    from c1 have n0: "0 \<le> 2 * capacity p" by simp
    have fit1: "elt_byte_size ?p1 * (2 * capacity p) \<le> R_SSIZE_MAX" using fit by simp
    note out = r_arr_resize_outcome[OF b1 n0 fit1]
    show ?thesis
    proof (cases "mem_ok w (length (heap w))
        (nat (elt_byte_size p * (2 * capacity p) * elt_byte_size p))")
      case True
      with out obtain p2 w2 where res: "r_arr_resize ?p1 (2 * capacity p) w = (Returned (), p2, w2)"
        by auto
      from r_arr_resize_buf_ok(1)[OF b1 res n0 fit1] have b2: "buf_ok w2 p2" .
      from r_arr_resize_fields[OF res] full c1
      have f2: "count p2 = capacity p + 1" "capacity p2 = 2 * capacity p"
        "elt_byte_size p2 = elt_byte_size p"
        by (simp_all add: r_ssize_min_def)
      from write_in_capacity[OF b2, of "capacity p" "?src p2"] f2 c1 srclen[of p2]
      obtain w' where wr: "write_bytes (r_arr_ptr p2 (capacity p)) (?src p2) w2 = (Returned (), w')"
        and b': "buf_ok w' p2"
        by auto
      from b' f2 c1 have "arr_ok w' p2" by (simp add: arr_ok_def)
      moreover from full g mult res wr pos f2 wrq[of p2 w2]
      have "r_arr_push_back p e w = (Returned (), p2, w')"
        by (simp add: r_arr_push_back_def wc' Let_def)
      ultimately show ?thesis using True by auto
    next
      case False
      with out have "r_arr_resize ?p1 (2 * capacity p) w = (Raised AllocationError, ?p1, w)"
        by simp
      with full g mult have "r_arr_push_back p e w = (Raised AllocationError, ?p1, w)"
        by (simp add: r_arr_push_back_def wc' Let_def)
      with False full show ?thesis by simp
    qed
  qed
qed

lemma write_bytes_heap_only:
  "write_bytes d src w = (Returned u, w') \<Longrightarrow> \<exists>h. w' = w\<lparr>heap := h\<rparr>"
  unfolding write_bytes_def
  by (auto split: ptr.splits sexp.splits payload.splits if_splits)

lemma r_arr_resize_heap_only:
  "r_arr_resize p n w = (Returned u, p', w') \<Longrightarrow> \<exists>h. w' = w\<lparr>heap := h\<rparr>"
  by (erule r_arr_resize_Returned) blast

lemma r_arr_push_back_heap_only:
  assumes "r_arr_push_back p e w = (Returned u, p', w')"
  shows "\<exists>h. w' = w\<lparr>heap := h\<rparr>"
proof -
  from assms obtain w1 where
    a: "w1 = w \<or> (\<exists>q n. r_arr_resize q n w = (Returned (), p', w1))"
    and b: "\<exists>src. write_bytes (r_arr_ptr_back p') src w1 = (Returned (), w')"
    by (auto elim!: r_arr_push_back_Returned)
  from a have "\<exists>h. w1 = w\<lparr>heap := h\<rparr>"
  proof
    assume "w1 = w"
    then have "w1 = w\<lparr>heap := heap w\<rparr>" by simp
    then show ?thesis by blast
  next
    assume "\<exists>q n. r_arr_resize q n w = (Returned (), p', w1)"
    then show ?thesis by (auto dest: r_arr_resize_heap_only)
  qed
  moreover from b have "\<exists>h. w' = w1\<lparr>heap := h\<rparr>"
    by (auto dest: write_bytes_heap_only)
  ultimately show ?thesis by auto
qed

lemma r_arr_push_back_room:
  assumes ok: "arr_ok w p" and room: "count p < capacity p"
  shows "\<exists>w'. r_arr_push_back p e w = (Returned (), p\<lparr>count := count p + 1\<rparr>, w') \<and>
           arr_ok w' (p\<lparr>count := count p + 1\<rparr>)"
proof -
  from ok have b: "buf_ok w p" and c: "0 \<le> count p" "count p \<le> capacity p"
    by (simp_all add: arr_ok_def)
  from b have pos: "0 < elt_byte_size p" and mx: "capacity p \<le> R_SSIZE_MAX"
    by (auto elim: buf_okE)
  from c room mx have wc: "wrap_ssize (count p + 1) = count p + 1"
    by (intro wrap_ssize_id) (simp_all add: R_SSIZE_MIN_def)
  let ?p1 = "p\<lparr>count := count p + 1\<rparr>"
  let ?src = "case e of Some elt \<Rightarrow> map elt [0..<nat (elt_byte_size p)]
                | None \<Rightarrow> replicate (nat (elt_byte_size p)) 0"
  have srclen: "length ?src = nat (elt_byte_size ?p1)"
    by (simp split: option.splits)
  have b1: "buf_ok w ?p1" using b by simp
  from write_in_capacity[OF b1 c(1) _ srclen] room
  obtain w' where wr: "write_bytes (r_arr_ptr ?p1 (count p)) ?src w = (Returned (), w')"
    and b': "buf_ok w' ?p1"
    by auto
  from b' c room have "arr_ok w' ?p1" by (simp add: arr_ok_def)
  moreover from room wr pos
  have "r_arr_push_back p e w = (Returned (), ?p1, w')"
    by (simp add: r_arr_push_back_def wc Let_def memcpy_def memset_def r_arr_ptr_back_def
        split: option.splits)
  ultimately show ?thesis by blast
qed

lemma push_all_returns:
  assumes "arr_ok w p" and "growth_factor p = 2" and "1 \<le> capacity p"
    and "\<forall>n b. mem_ok w n b"
    and "elt_byte_size p * (2 * (count p + int (length es))) \<le> R_SSIZE_MAX"
  shows "\<exists>p' w'. push_all p es w = (Returned (), p', w') \<and> arr_ok w' p'"
  using assms
proof (induction es arbitrary: p w)
  case Nil
  then show ?case by simp
next
  case (Cons e es)
  from Cons.prems(1) have b: "buf_ok w p" and c: "0 \<le> count p" "count p \<le> capacity p"
    by (simp_all add: arr_ok_def)
  from b have pos: "0 < elt_byte_size p" by (auto elim: buf_okE)
  have "\<exists>p1 w1. r_arr_push_back p e w = (Returned (), p1, w1) \<and> arr_ok w1 p1"
  proof (cases "count p < capacity p")
    case True
    from r_arr_push_back_room[OF Cons.prems(1) True] show ?thesis by blast
  next
    case False
    with c have full: "count p = capacity p" by simp
    have "2 * capacity p \<le> 2 * (count p + int (length (e # es)))"
      using full by simp
    with pos have "elt_byte_size p * (2 * capacity p) \<le>
        elt_byte_size p * (2 * (count p + int (length (e # es))))"
      by (intro mult_left_mono) simp_all
    with Cons.prems(5) have fit: "elt_byte_size p * (2 * capacity p) \<le> R_SSIZE_MAX"
      by linarith
    from r_arr_push_back_safe[OF Cons.prems(1,2,3) fit, of e] Cons.prems(4)
    show ?thesis by simp
  qed
  then obtain p1 w1 where step: "r_arr_push_back p e w = (Returned (), p1, w1)"
    and ok1: "arr_ok w1 p1"
    by blast
  from r_arr_push_back_fields[OF step] Cons.prems(2)
  have g1: "growth_factor p1 = 2" and e1: "elt_byte_size p1 = elt_byte_size p"
    by simp_all
  have inv: "push_inv (capacity p) p"
  proof -
    have "capacity p = capacity p * 2 ^ 0" by simp
    then have "\<exists>k. capacity p = capacity p * 2 ^ k" by blast
    moreover from b have "capacity p \<le> R_SSIZE_MAX" "\<exists>x. v_data p = Ptr x 0"
      by (auto elim: buf_okE)
    ultimately show ?thesis
      using Cons.prems(2,3) c pos by (simp add: push_inv_def)
  qed
  from push_step[OF inv step]
  have c1: "count p1 = count p + 1" and m1: "capacity p \<le> capacity p1"
    by simp_all
  from r_arr_push_back_heap_only[OF step] Cons.prems(4)
  have mem1: "\<forall>n b. mem_ok w1 n b" by auto
  from Cons.prems(5) e1 c1
  have fit1: "elt_byte_size p1 * (2 * (count p1 + int (length es))) \<le> R_SSIZE_MAX"
    by (simp add: algebra_simps)
  from m1 Cons.prems(3) have cap1: "1 \<le> capacity p1" by simp
  from Cons.IH[OF ok1 g1 cap1 mem1 fit1] step show ?case
    by simp
qed

lemma created_push_all_returns:
  assumes create: "r_new_dyn_vector ty cap w = (Returned p0, w0)"
    and cap: "1 \<le> cap" "cap \<le> R_SSIZE_MAX"
    and mem: "\<forall>n b. mem_ok w n b"
    and fit: "r_vec_elt_sizeof0 ty * (2 * int (length es)) \<le> R_SSIZE_MAX"
  shows "\<exists>p w'. push_all p0 es w0 = (Returned (), p, w') \<and> arr_ok w' p"
proof -
  note f = r_new_dyn_vector_Returned[OF create]
  from f(3) mem have mem0: "\<forall>n b. mem_ok w0 n b" by simp
  from f(2) cap fit
  show ?thesis
    by (intro push_all_returns[OF r_new_dyn_vector_arr_ok[OF create cap(2)] _ _ mem0])
      simp_all
qed

lemma r_arr_push_back_reads_back:
  assumes run: "r_arr_push_back p e w = (Returned u, p', w')"
  shows "r_arr_get p' (count p' - 1) w' =
           Some (case e of Some elt \<Rightarrow> map elt [0..<nat (elt_byte_size p)]
                 | None \<Rightarrow> replicate (nat (elt_byte_size p)) 0)"
proof -
  from run obtain w1 where sz: "0 \<le> elt_byte_size p'"
    and wr: "write_bytes (r_arr_ptr_back p')
       (case e of Some elt \<Rightarrow> map elt [0..<nat (elt_byte_size p')]
        | None \<Rightarrow> replicate (nat (elt_byte_size p')) 0) w1 = (Returned (), w')"
    by (auto elim!: r_arr_push_back_Returned)
  note eq = r_arr_push_back_fields(1)[OF run]
  have len: "int (length (case e of Some elt \<Rightarrow> map elt [0..<nat (elt_byte_size p)]
        | None \<Rightarrow> replicate (nat (elt_byte_size p)) 0)) = elt_byte_size p"
    using sz eq by (simp split: option.splits)
  from read_after_write[OF wr[unfolded eq]] len eq
  show ?thesis
    by (simp add: r_arr_get_def r_arr_ptr_back_def)
qed

lemma arr_ok_push_inv:
  assumes ok: "arr_ok w p" and g: "growth_factor p = 2" and c1: "1 \<le> capacity p"
  shows "push_inv (capacity p) p"
proof -
  from ok have b: "buf_ok w p" and c: "0 \<le> count p" "count p \<le> capacity p"
    by (simp_all add: arr_ok_def)
  have "capacity p = capacity p * 2 ^ 0" by simp
  then have "\<exists>k. capacity p = capacity p * 2 ^ k" by blast
  moreover from b have "capacity p \<le> R_SSIZE_MAX" "\<exists>x. v_data p = Ptr x 0"
    "0 < elt_byte_size p"
    by (auto elim: buf_okE)
  ultimately show ?thesis
    using g c1 c by (simp add: push_inv_def)
qed

lemma int_world_arr_ok: "arr_ok int_world int_arr"
  using r_new_dyn_vector_arr_ok[OF int_created] by (simp add: R_SSIZE_MAX_def)

lemma int_pushed_eq: "int_pushed = (Returned (), full_arr, pushed_world)"
  by (simp add: pushed_world_def prod_eq_iff)
    (simp add: int_pushed_def full_arr_def int_arr_def int_world_eq host0_def host_defs
      dyn_array_defs Let_def)

lemma pushed_world_arr_ok: "arr_ok pushed_world full_arr"
proof -
  have "count int_arr < capacity int_arr" by (simp add: int_arr_def)
  from r_arr_push_back_room[OF int_world_arr_ok this, of "Some elt1234"]
  show ?thesis
    using int_pushed_eq by (auto simp: int_pushed_def full_arr_def int_arr_def)
qed

lemma pushed_world_eq:
  "pushed_world = host0\<lparr>heap :=
     [\<lparr>payload = Slots [Sym ''rlang_dyn_array''], attrib = [], obj_bit = False\<rparr>,
      \<lparr>payload = Slots [Ref 2, Ref 3], attrib = [(Sym ''class'', Ref 0)], obj_bit = True\<rparr>,
      \<lparr>payload = Bytes r_type_raw (replicate 56 170), attrib = [], obj_bit = False\<rparr>,
      \<lparr>payload = Bytes r_type_integer [1, 2, 3, 4], attrib = [], obj_bit = False\<rparr>]\<rparr>"
  by (simp add: pushed_world_def int_pushed_def int_arr_def int_world_eq host0_def
      host_defs dyn_array_defs Let_def elt1234_def upt_rec)

lemma write_other_slot:
  assumes ok: "buf_ok w p" and i: "0 \<le> i" "i < capacity p" and j: "0 \<le> j" "j < capacity p"
    and ne: "i \<noteq> j" and len: "length src = nat (elt_byte_size p)"
    and wr: "write_bytes (r_arr_ptr p i) src w = (Returned u, w')"
  shows "r_arr_get p j w' = r_arr_get p j w"
proof -
  from ok obtain s c v bs where f:
    "v < length (heap w)" "v_data p = Ptr (Ref v) 0"
    "payload (heap w ! v) = Bytes (type p) bs"
    "capacity p * elt_byte_size p \<le> int (length bs)"
    "0 < elt_byte_size p"
    by (auto elim: buf_okE)
  define e where "e = nat (elt_byte_size p)"
  define a where "a = nat i"
  define b where "b = nat j"
  from f(5) have epos: "0 < e" and ee: "elt_byte_size p = int e" by (simp_all add: e_def)
  from i j have ia: "i = int a" and jb: "j = int b" by (simp_all add: a_def b_def)
  note bi = slot_bytes[OF f(5) i f(4)]
  note bj = slot_bytes[OF f(5) j f(4)]
  have offi: "nat (i * elt_byte_size p) = a * e" and offj: "nat (j * elt_byte_size p) = b * e"
    by (simp_all add: ia jb ee nat_mult_distrib)
  from bi(2) have "int (a * e + e) \<le> int (length bs)" by (simp add: ia ee)
  then have fiti: "a * e + e \<le> length bs" by (simp only: of_nat_le_iff)
  from bj(2) have "int (b * e + e) \<le> int (length bs)" by (simp add: jb ee)
  then have fitj: "b * e + e \<le> length bs" by (simp only: of_nat_le_iff)
  define nbs where "nbs = take (a * e) bs @ src @ drop (a * e + e) bs"
  from fiti len have nlen: "length nbs = length bs" by (simp add: nbs_def e_def)
  from wr f bi len offi
  have w': "w' = w\<lparr>heap := (heap w)[v := (heap w ! v)\<lparr>payload := Bytes (type p) nbs\<rparr>]\<rparr>"
    by (simp add: r_arr_ptr_def write_bytes_def nbs_def e_def)
  have same: "take e (drop (b * e) nbs) = take e (drop (b * e) bs)"
  proof (cases "b < a")
    case True
    then have "b + 1 \<le> a" by simp
    then have "(b + 1) * e \<le> a * e" by (rule mult_le_mono1)
    then have le: "b * e + e \<le> a * e" by simp
    from take_drop_prefix[OF le fitj, of "src @ drop (a * e + e) bs"]
    show ?thesis by (simp add: nbs_def)
  next
    case False
    with ne ia jb have ab: "a + 1 \<le> b" by simp
    then have "(a + 1) * e \<le> b * e" by (rule mult_le_mono1)
    then have le: "a * e + e \<le> b * e" by simp
    from fiti have l1: "length (take (a * e) bs) = a * e" by simp
    from len have l2: "length src = e" by (simp add: e_def)
    from le l1 l2 ab
    have "drop (b * e) nbs = drop (b * e - (a * e + e)) (drop (a * e + e) bs)"
      by (simp add: nbs_def)
    also from le have "\<dots> = drop (b * e) bs" by simp
    finally show ?thesis by simp
  qed
  from f bj nlen w' same offj show ?thesis
    by (simp add: r_arr_get_def r_arr_ptr_def read_bytes_def e_def)
qed

lemma r_arr_get_count [simp]: "r_arr_get (p\<lparr>count := c\<rparr>) i w = r_arr_get p i w"
  by (simp add: r_arr_get_def r_arr_ptr_def split: ptr.splits)

lemma r_arr_push_back_keeps:
  assumes ok: "arr_ok w p" and c1: "1 \<le> capacity p" and g: "growth_factor p = 2"
    and res: "count p < capacity p \<or> elt_byte_size p * (2 * capacity p) \<le> R_SSIZE_MAX"
    and run: "r_arr_push_back p e w = (Returned u, p', w')"
    and i: "0 \<le> i" "i < count p"
  shows "r_arr_get p' i w' = r_arr_get p i w"
proof -
  from ok have b: "buf_ok w p" and c: "0 \<le> count p" "count p \<le> capacity p"
    by (simp_all add: arr_ok_def)
  let ?p1 = "p\<lparr>count := wrap_ssize (count p + 1)\<rparr>"
  from push_step[OF arr_ok_push_inv[OF ok g c1] run]
  have cnt: "count p' = count p + 1" and inv': "push_inv (capacity p) p'"
    by simp_all
  from inv' have cc': "count p' \<le> capacity p'" by (simp add: push_inv_def)
  from run obtain w1 where
    alt: "count p' \<le> capacity p' \<and> p' = ?p1 \<and> w1 = w
     \<or> capacity p < wrap_ssize (count p + 1) \<and>
       R_SSIZE_MIN \<le> capacity p * growth_factor p \<and>
       capacity p * growth_factor p \<le> R_SSIZE_MAX \<and>
       r_arr_resize ?p1 (capacity p * growth_factor p) w = (Returned (), p', w1)"
    and wr: "write_bytes (r_arr_ptr_back p')
       (case e of Some elt \<Rightarrow> map elt [0..<nat (elt_byte_size p')]
        | None \<Rightarrow> replicate (nat (elt_byte_size p')) 0) w1 = (Returned (), w')"
    by (rule r_arr_push_back_Returned)
  have mid: "buf_ok w1 p' \<and> r_arr_get p' i w1 = r_arr_get p i w"
    using alt
  proof
    assume a: "count p' \<le> capacity p' \<and> p' = ?p1 \<and> w1 = w"
    with b show ?thesis by simp
  next
    assume r: "capacity p < wrap_ssize (count p + 1) \<and>
       R_SSIZE_MIN \<le> capacity p * growth_factor p \<and>
       capacity p * growth_factor p \<le> R_SSIZE_MAX \<and>
       r_arr_resize ?p1 (capacity p * growth_factor p) w = (Returned (), p', w1)"
    then have rs: "r_arr_resize ?p1 (2 * capacity p) w = (Returned (), p', w1)"
      using g by (simp add: mult.commute)
    from b have mx: "capacity p \<le> R_SSIZE_MAX" by (auto elim: buf_okE)
    from wrap_ssize_succ[OF c(1)] c(2) mx
    have "wrap_ssize (count p + 1) = count p + 1 \<or> wrap_ssize (count p + 1) = R_SSIZE_MIN"
      by auto
    with r c1 have "capacity p < count p + 1"
      by (auto simp: R_SSIZE_MIN_def)
    with c have full: "count p = capacity p" by simp
    with res have fit: "elt_byte_size ?p1 * (2 * capacity p) \<le> R_SSIZE_MAX" by simp
    have b1: "buf_ok w ?p1" using b by simp
    from c1 have n0: "0 \<le> 2 * capacity p" by simp
    from i c c1 have i2: "i < 2 * capacity p" "i < capacity ?p1" by simp_all
    from r_arr_resize_buf_ok(1)[OF b1 rs n0 fit]
      r_arr_resize_keeps[OF b1 rs fit i(1) i2]
    show ?thesis by simp
  qed
  then have b': "buf_ok w1 p'" and g1: "r_arr_get p' i w1 = r_arr_get p i w"
    by simp_all
  from b' have pos: "0 < elt_byte_size p'" by (auto elim: buf_okE)
  have len: "length (case e of Some elt \<Rightarrow> map elt [0..<nat (elt_byte_size p')]
        | None \<Rightarrow> replicate (nat (elt_byte_size p')) 0) = nat (elt_byte_size p')"
    by (simp split: option.splits)
  from cnt c cc' i have sl: "0 \<le> count p' - 1" "count p' - 1 < capacity p'"
    "i < capacity p'" "count p' - 1 \<noteq> i"
    by simp_all
  from write_other_slot[OF b' sl(1,2) i(1) sl(3,4) len wr[unfolded r_arr_ptr_back_def]] g1
  show ?thesis by simp
qed

section \<open>Properties of the dynamic array\<close>

text \<open>
  C1, as the spec states it, fails: a push that fails has already incremented the count.
  On the small host the full array of capacity 1 cannot grow, the push raises
  \<open>AllocationError\<close>, and the count is 2 where it was 1; and a push whose growth
  multiplication overflows leaves the count one higher as well.
\<close>

theorem failing_push_changes_count:
  "fst (r_arr_push_back full_arr None full_world) = Raised AllocationError \<and>
   count full_arr = 1 \<and>
   count (fst (snd (r_arr_push_back full_arr None full_world))) = 2 \<and>
   fst (r_arr_push_back big_arr None host0) = Raised OverflowError \<and>
   count (fst (snd (r_arr_push_back big_arr None host0))) = count big_arr + 1"
  by (simp add: full_arr_def int_arr_def big_arr_def full_world_eq host_small_def host0_def
      host_defs dyn_array_defs Let_def)

text \<open>
  C1, amended. A resize that raises leaves the control struct and the world as they
  were. A push that raises leaves the world and every field of the control struct but
  \<open>count\<close> as they were; \<open>count\<close> is one more than before.
\<close>

theorem failure_leaves_struct:
  "(r_arr_resize p n w = (Raised e, p', w') \<longrightarrow> p' = p \<and> w' = w) \<and>
   (r_arr_push_back q elt v = (Raised e', q', v') \<longrightarrow>
      q' = q\<lparr>count := wrap_ssize (count q + 1)\<rparr> \<and> v' = v \<and>
      (R_SSIZE_MIN \<le> count q \<and> count q < R_SSIZE_MAX \<longrightarrow> count q' = count q + 1))"
  by (auto dest: r_arr_resize_Raised r_arr_push_back_Raised simp: wrap_ssize_id)

theorem failure_leaves_struct_witness:
  "fst (r_arr_resize full_arr 8 full_world) = Raised AllocationError \<and>
   snd (r_arr_resize full_arr 8 full_world) = (full_arr, full_world) \<and>
   fst (r_arr_push_back full_arr None full_world) = Raised AllocationError \<and>
   snd (r_arr_push_back full_arr None full_world) = (full_arr\<lparr>count := 2\<rparr>, full_world)"
proof -
  have a: "fst (r_arr_resize full_arr 8 full_world) = Raised AllocationError"
    by (simp add: full_arr_def int_arr_def full_world_eq host_small_def host0_def
        host_defs dyn_array_defs Let_def)
  have b: "fst (r_arr_push_back full_arr None full_world) = Raised AllocationError"
    by (simp add: full_arr_def int_arr_def full_world_eq host_small_def host0_def
        host_defs dyn_array_defs Let_def)
  have ra: "r_arr_resize full_arr 8 full_world =
      (Raised AllocationError, fst (snd (r_arr_resize full_arr 8 full_world)),
       snd (snd (r_arr_resize full_arr 8 full_world)))"
    using a by (simp add: prod_eq_iff)
  have rb: "r_arr_push_back full_arr None full_world =
      (Raised AllocationError, fst (snd (r_arr_push_back full_arr None full_world)),
       snd (snd (r_arr_push_back full_arr None full_world)))"
    using b by (simp add: prod_eq_iff)
  have c: "R_SSIZE_MIN \<le> count full_arr \<and> count full_arr < R_SSIZE_MAX"
    by (simp add: full_arr_def int_arr_def R_SSIZE_MIN_def R_SSIZE_MAX_def)
  from failure_leaves_struct[of full_arr 8 full_world AllocationError
      "fst (snd (r_arr_resize full_arr 8 full_world))"
      "snd (snd (r_arr_resize full_arr 8 full_world))"
      full_arr None full_world AllocationError
      "fst (snd (r_arr_push_back full_arr None full_world))"
      "snd (snd (r_arr_push_back full_arr None full_world))"] ra rb c a b
  show ?thesis
    by (simp add: prod_eq_iff full_arr_def int_arr_def wrap_ssize_def)
qed

text \<open>
  C2. The claim has resize ask for \<open>new_capacity\<close> elements in typed mode. The code
  asks for \<open>elt_byte_size * new_capacity\<close> elements whatever the type (lemma
  \<open>r_arr_resize_request\<close>): the integer array resized to capacity 8 gets a backing
  vector of 32 integers in slot 1 of its shelter.
\<close>

theorem resize_typed_request:
  "fst int_resized = Returned () \<and>
   type (fst (snd int_resized)) = r_type_integer \<and>
   capacity (fst (snd int_resized)) = 8 \<and>
   fst (r_list_get (shelter (fst (snd int_resized))) 1 (snd (snd int_resized))) =
     Returned (Ref 4) \<and>
   r_length (Ref 4) (snd (snd int_resized)) = Some 32"
  by (simp add: int_resized_def int_arr_def int_world_eq host0_def host_defs dyn_array_defs
      Let_def)

text \<open>
  C3. The claim has every size product checked. The product in \<^verbatim>\<open>r_arr_resize\<close> is not:
  for the array of doubles and the capacity \<open>2 ^ 61\<close> the checked multiplication would
  raise \<open>OverflowError\<close>, but resize returns, with a capacity whose byte size exceeds
  the signed size maximum and a backing vector of no elements.
\<close>

theorem resize_product_unchecked:
  "fst (r_arr_resize dbl_arr (2 ^ 61) dbl_world) = Returned () \<and>
   capacity (fst (snd (r_arr_resize dbl_arr (2 ^ 61) dbl_world))) = 2 ^ 61 \<and>
   elt_byte_size (fst (snd (r_arr_resize dbl_arr (2 ^ 61) dbl_world))) = 8 \<and>
   R_SSIZE_MAX < 2 ^ 61 * 8 \<and>
   r_ssize_mult (2 ^ 61) 8 = Raised OverflowError \<and>
   r_length (Ref 4) (snd (snd (r_arr_resize dbl_arr (2 ^ 61) dbl_world))) = Some 0"
  by (simp add: dbl_arr_def dbl_world_eq host0_def host_defs dyn_array_defs Let_def)

text \<open>
  C4, as the spec states it, fails for the initial capacity 0: the capacity doubles to
  0, resize clamps the count back to 0, and the element is written four bytes before the
  start of the backing vector. The push neither returns with count 1 nor raises.
\<close>

theorem push_at_capacity_zero:
  "fst (r_new_dyn_vector r_type_integer 0 host0) = Returned zero_arr \<and>
   snd (r_new_dyn_vector r_type_integer 0 host0) = zero_world \<and>
   fst (r_arr_push_back zero_arr (Some elt1234) zero_world) = Undefined \<and>
   count (fst (snd (r_arr_push_back zero_arr (Some elt1234) zero_world))) = 0 \<and>
   capacity (fst (snd (r_arr_push_back zero_arr (Some elt1234) zero_world))) = 0 \<and>
   r_arr_ptr_back (fst (snd (r_arr_push_back zero_arr (Some elt1234) zero_world))) =
     Ptr (Ref 4) (- 4)"
proof -
  have "fst (r_arr_push_back zero_arr (Some elt1234) zero_world) = Undefined \<and>
   count (fst (snd (r_arr_push_back zero_arr (Some elt1234) zero_world))) = 0 \<and>
   capacity (fst (snd (r_arr_push_back zero_arr (Some elt1234) zero_world))) = 0 \<and>
   r_arr_ptr_back (fst (snd (r_arr_push_back zero_arr (Some elt1234) zero_world))) =
     Ptr (Ref 4) (- 4)"
    by (simp add: zero_arr_def zero_world_eq host0_def host_defs dyn_array_defs Let_def)
  with zero_created show ?thesis by simp
qed

text \<open>
  C4, amended. For an array created with an initial capacity of at least 1 and a
  sequence of pushes that all return: the count is the number of pushes; the capacity is
  the initial capacity times a power of the growth factor and holds the count; and the
  capacity after any prefix of the sequence lies between the initial and the final
  capacity. (On a host with memory the pushes do all return:
  \<open>created_push_all_returns\<close>.)
\<close>

theorem push_sequence_count_capacity:
  assumes create: "r_new_dyn_vector ty cap w = (Returned p0, w0)"
    and cap: "1 \<le> cap" "cap \<le> R_SSIZE_MAX"
    and run: "push_all p0 es w0 = (Returned u, p, w')"
  shows "count p = int (length es) \<and>
         (\<exists>k. capacity p = cap * growth_factor p ^ k) \<and>
         count p \<le> capacity p \<and>
         (\<forall>es1 es2. es = es1 @ es2 \<longrightarrow>
            (\<exists>p1 w1. push_all p0 es1 w0 = (Returned (), p1, w1) \<and>
               cap \<le> capacity p1 \<and> capacity p1 \<le> capacity p))"
proof -
  have inv0: "push_inv cap p0" by (rule created_push_inv[OF create cap])
  have cnt0: "count p0 = 0" using r_new_dyn_vector_Returned(2)[OF create] by simp
  from push_all_inv[OF inv0 run] cnt0
  have inv: "push_inv cap p" and cnt: "count p = int (length es)" by simp_all
  have mono: "\<exists>p1 w1. push_all p0 es1 w0 = (Returned (), p1, w1) \<and>
               cap \<le> capacity p1 \<and> capacity p1 \<le> capacity p"
    if split: "es = es1 @ es2" for es1 es2
  proof -
    obtain r p1 w1 where first: "push_all p0 es1 w0 = (r, p1, w1)"
      by (cases "push_all p0 es1 w0") auto
    with run split have r: "r = Returned ()" and rest: "push_all p1 es2 w1 = (Returned u, p, w')"
      by (cases r; simp add: push_all_append)+
    from push_all_inv[OF inv0 first[unfolded r]] have inv1: "push_inv cap p1" by simp
    from push_all_inv[OF inv1 rest] have "capacity p1 \<le> capacity p" by simp
    with inv1 first r show ?thesis by (auto simp: push_inv_def)
  qed
  from inv cnt mono show ?thesis
    by (auto simp: push_inv_def)
qed

theorem push_sequence_count_capacity_witness:
  "r_new_dyn_vector r_type_integer 1 host0 = (Returned int_arr, int_world) \<and>
   fst (push_all int_arr three_pushes int_world) = Returned () \<and>
   count (fst (snd (push_all int_arr three_pushes int_world))) = 3 \<and>
   capacity (fst (snd (push_all int_arr three_pushes int_world))) = 4 \<and>
   (\<exists>k. capacity (fst (snd (push_all int_arr three_pushes int_world))) = 1 * 2 ^ k) \<and>
   (\<exists>p1 w1. push_all int_arr [Some elt1234] int_world = (Returned (), p1, w1) \<and>
      1 \<le> capacity p1 \<and> capacity p1 \<le> 4)"
proof -
  have a: "fst (push_all int_arr three_pushes int_world) = Returned ()"
    by (simp add: three_pushes_def int_arr_def int_world_eq host0_def host_defs
        dyn_array_defs Let_def)
  have b: "capacity (fst (snd (push_all int_arr three_pushes int_world))) = 4"
    by (simp add: three_pushes_def int_arr_def int_world_eq host0_def host_defs
        dyn_array_defs Let_def)
  have g: "growth_factor (fst (snd (push_all int_arr three_pushes int_world))) = 2"
    by (simp add: three_pushes_def int_arr_def int_world_eq host0_def host_defs
        dyn_array_defs Let_def)
  have run: "push_all int_arr three_pushes int_world =
      (Returned (), fst (snd (push_all int_arr three_pushes int_world)),
       snd (snd (push_all int_arr three_pushes int_world)))"
    using a by (simp add: prod_eq_iff)
  have rng: "(1::int) \<le> 1" "1 \<le> R_SSIZE_MAX"
    by (simp_all add: R_SSIZE_MAX_def)
  have split: "three_pushes = [Some elt1234] @ [None, Some elt1234]"
    by (simp add: three_pushes_def)
  note th = push_sequence_count_capacity[OF int_created rng run]
  from th[THEN conjunct1]
  have c: "count (fst (snd (push_all int_arr three_pushes int_world))) = 3"
    by (simp add: three_pushes_def)
  from th[THEN conjunct2, THEN conjunct1] g
  have k: "\<exists>k. capacity (fst (snd (push_all int_arr three_pushes int_world))) = 1 * 2 ^ k"
    by simp
  from th[THEN conjunct2, THEN conjunct2, THEN conjunct2, rule_format, OF split] b
  have m: "\<exists>p1 w1. push_all int_arr [Some elt1234] int_world = (Returned (), p1, w1) \<and>
      1 \<le> capacity p1 \<and> capacity p1 \<le> 4"
    by simp
  from int_created a b c k m show ?thesis
    by blast
qed

text \<open>
  C5. The claim has a growing resize keep the elements below \<open>count\<close>. After one
  push the array of doubles holds the eight bytes pushed at position 0; resized to
  \<open>2 ^ 61\<close>, the count is still 1 and the capacity is \<open>2 ^ 61\<close>, but position 0 can no
  longer be read: the unchecked product has wrapped to 0 and the backing vector is empty.
  Where the product does not overflow, truncation and growth are as the claim has them
  (\<open>r_arr_resize_truncates_grows\<close>).
\<close>

theorem resize_growth_loses_data:
  "fst dbl_pushed = Returned () \<and>
   count (fst (snd dbl_pushed)) = 1 \<and>
   capacity (fst (snd dbl_pushed)) = 1 \<and>
   r_arr_get (fst (snd dbl_pushed)) 0 (snd (snd dbl_pushed)) = Some [1, 2, 3, 4, 5, 6, 7, 8] \<and>
   fst dbl_grown = Returned () \<and>
   count (fst (snd dbl_grown)) = 1 \<and>
   capacity (fst (snd dbl_grown)) = 2 ^ 61 \<and>
   r_arr_get (fst (snd dbl_grown)) 0 (snd (snd dbl_grown)) = None"
  by (simp add: dbl_grown_def dbl_pushed_def dbl_arr_def dbl_world_eq host0_def host_defs
      dyn_array_defs Let_def elt1234_def upt_rec)

text \<open>
  C6. An array is a control struct with its buffer in place (\<open>arr_ok\<close>: the backing
  vector holds \<open>capacity\<close> elements and the element size is that of the type, as both
  constructors leave it). For every array of capacity at least 1, with the growth factor
  that create sets, a push returns, provided there is room or else the doubled size fits
  \<^verbatim>\<open>r_ssize\<close> and the host has the memory for it. After the push the count is one more, the slot at position \<open>count - 1\<close> holds
  exactly the \<open>elt_byte_size\<close> bytes supplied, or that many zero bytes when no value was
  supplied, and the elements pushed before are what they were. (What \<open>dbl_grown\<close> of C5
  leaves behind is no array: a capacity of \<open>2 ^ 61\<close> over an empty vector.)
\<close>

theorem push_back_round_trip:
  assumes ok: "arr_ok w p" and c1: "1 \<le> capacity p"
    and g: "growth_factor p = R_DYN_ARRAY_GROWTH_FACTOR"
    and res: "count p < capacity p \<or>
              elt_byte_size p * (2 * capacity p) \<le> R_SSIZE_MAX \<and>
              mem_ok w (length (heap w))
                (nat (elt_byte_size p * (2 * capacity p) * elt_byte_size p))"
  shows "\<exists>p' w'. r_arr_push_back p e w = (Returned (), p', w') \<and>
           arr_ok w' p' \<and> count p' = count p + 1 \<and>
           r_arr_get p' (count p' - 1) w' =
             Some (case e of Some elt \<Rightarrow> map elt [0..<nat (elt_byte_size p)]
                   | None \<Rightarrow> replicate (nat (elt_byte_size p)) 0) \<and>
           length (case e of Some elt \<Rightarrow> map elt [0..<nat (elt_byte_size p)]
                   | None \<Rightarrow> replicate (nat (elt_byte_size p)) 0) = nat (elt_byte_size p) \<and>
           (\<forall>i. 0 \<le> i \<and> i < count p \<longrightarrow> r_arr_get p' i w' = r_arr_get p i w)"
proof -
  from g have g2: "growth_factor p = 2" by (simp add: R_DYN_ARRAY_GROWTH_FACTOR_def)
  have "\<exists>p' w'. r_arr_push_back p e w = (Returned (), p', w') \<and> arr_ok w' p'"
  proof (cases "count p < capacity p")
    case True
    from r_arr_push_back_room[OF ok True] show ?thesis by blast
  next
    case False
    with res have fit: "elt_byte_size p * (2 * capacity p) \<le> R_SSIZE_MAX"
      and mem: "mem_ok w (length (heap w))
                (nat (elt_byte_size p * (2 * capacity p) * elt_byte_size p))"
      by simp_all
    from r_arr_push_back_safe[OF ok g2 c1 fit, of e] mem show ?thesis by simp
  qed
  then obtain p' w' where run: "r_arr_push_back p e w = (Returned (), p', w')"
    and ok': "arr_ok w' p'"
    by blast
  from push_step[OF arr_ok_push_inv[OF ok g2 c1] run] have cnt: "count p' = count p + 1"
    by simp
  have len: "length (case e of Some elt \<Rightarrow> map elt [0..<nat (elt_byte_size p)]
                   | None \<Rightarrow> replicate (nat (elt_byte_size p)) 0) = nat (elt_byte_size p)"
    by (simp split: option.splits)
  from res have res': "count p < capacity p \<or> elt_byte_size p * (2 * capacity p) \<le> R_SSIZE_MAX"
    by blast
  have keep: "\<forall>i. 0 \<le> i \<and> i < count p \<longrightarrow> r_arr_get p' i w' = r_arr_get p i w"
    using r_arr_push_back_keeps[OF ok c1 g2 res' run] by blast
  from run ok' cnt r_arr_push_back_reads_back[OF run] len keep show ?thesis by blast
qed

theorem push_back_round_trip_witness:
  "arr_ok pushed_world full_arr \<and> count full_arr = capacity full_arr \<and>
   r_arr_get full_arr 0 pushed_world = Some [1, 2, 3, 4] \<and>
   (\<exists>p' w'. r_arr_push_back full_arr (Some elt1234) pushed_world = (Returned (), p', w') \<and>
      count p' = 2 \<and> r_arr_get p' 1 w' = Some [1, 2, 3, 4] \<and>
      r_arr_get p' 0 w' = Some [1, 2, 3, 4]) \<and>
   (\<exists>p' w'. r_arr_push_back full_arr None pushed_world = (Returned (), p', w') \<and>
      count p' = 2 \<and> r_arr_get p' 1 w' = Some [0, 0, 0, 0] \<and>
      r_arr_get p' 0 w' = Some [1, 2, 3, 4]) \<and>
   (\<exists>p' w'. r_arr_push_back int_arr (Some elt1234) int_world = (Returned (), p', w') \<and>
      count p' = 1 \<and> r_arr_get p' 0 w' = Some [1, 2, 3, 4])"
proof -
  have full: "count full_arr = capacity full_arr" "1 \<le> capacity full_arr"
    "growth_factor full_arr = R_DYN_ARRAY_GROWTH_FACTOR"
    by (simp_all add: full_arr_def int_arr_def R_DYN_ARRAY_GROWTH_FACTOR_def)
  have grow: "count full_arr < capacity full_arr \<or>
      elt_byte_size full_arr * (2 * capacity full_arr) \<le> R_SSIZE_MAX \<and>
      mem_ok pushed_world (length (heap pushed_world))
        (nat (elt_byte_size full_arr * (2 * capacity full_arr) * elt_byte_size full_arr))"
    by (simp add: full_arr_def int_arr_def pushed_world_eq host0_def R_SSIZE_MAX_def)
  have room: "1 \<le> capacity int_arr" "growth_factor int_arr = R_DYN_ARRAY_GROWTH_FACTOR"
    "count int_arr < capacity int_arr \<or>
      elt_byte_size int_arr * (2 * capacity int_arr) \<le> R_SSIZE_MAX \<and>
      mem_ok int_world (length (heap int_world))
        (nat (elt_byte_size int_arr * (2 * capacity int_arr) * elt_byte_size int_arr))"
    by (simp_all add: int_arr_def R_DYN_ARRAY_GROWTH_FACTOR_def)
  have old: "r_arr_get full_arr 0 pushed_world = Some [1, 2, 3, 4]"
    by (simp add: full_arr_def int_arr_def pushed_world_eq host0_def host_defs dyn_array_defs)
  have first: "(0::int) \<le> 0 \<and> 0 < count full_arr"
    by (simp add: full_arr_def)
  from push_back_round_trip[OF pushed_world_arr_ok full(2,3) grow, of "Some elt1234"]
  obtain p' w' where
    "r_arr_push_back full_arr (Some elt1234) pushed_world = (Returned (), p', w')"
    "count p' = count full_arr + 1"
    "r_arr_get p' (count p' - 1) w' = Some (map elt1234 [0..<nat (elt_byte_size full_arr)])"
    "\<forall>i. 0 \<le> i \<and> i < count full_arr \<longrightarrow> r_arr_get p' i w' = r_arr_get full_arr i pushed_world"
    by auto
  with old first
  have a: "\<exists>p' w'. r_arr_push_back full_arr (Some elt1234) pushed_world = (Returned (), p', w') \<and>
      count p' = 2 \<and> r_arr_get p' 1 w' = Some [1, 2, 3, 4] \<and>
      r_arr_get p' 0 w' = Some [1, 2, 3, 4]"
    by (auto simp: full_arr_def int_arr_def elt1234_def upt_rec)
  from push_back_round_trip[OF pushed_world_arr_ok full(2,3) grow, of None]
  obtain q' v' where
    "r_arr_push_back full_arr None pushed_world = (Returned (), q', v')"
    "count q' = count full_arr + 1"
    "r_arr_get q' (count q' - 1) v' = Some (replicate (nat (elt_byte_size full_arr)) 0)"
    "\<forall>i. 0 \<le> i \<and> i < count full_arr \<longrightarrow> r_arr_get q' i v' = r_arr_get full_arr i pushed_world"
    by auto
  with old first
  have b: "\<exists>p' w'. r_arr_push_back full_arr None pushed_world = (Returned (), p', w') \<and>
      count p' = 2 \<and> r_arr_get p' 1 w' = Some [0, 0, 0, 0] \<and>
      r_arr_get p' 0 w' = Some [1, 2, 3, 4]"
    by (auto simp: full_arr_def int_arr_def numeral_eq_Suc)
  from push_back_round_trip[OF int_world_arr_ok room, of "Some elt1234"]
  have c: "\<exists>p' w'. r_arr_push_back int_arr (Some elt1234) int_world = (Returned (), p', w') \<and>
      count p' = 1 \<and> r_arr_get p' 0 w' = Some [1, 2, 3, 4]"
    by (auto simp: int_arr_def elt1234_def upt_rec)
  from pushed_world_arr_ok full(1) old a b c show ?thesis by blast
qed

text \<open>
  C7. After every operation that completes, \<open>count \<le> capacity\<close>: create sets the
  count to 0, resize clamps the count to the minimum of the count and the new capacity,
  and push has run its growth branch before it returns.
\<close>

theorem count_le_capacity:
  "(r_new_dyn_vector ty cap w = (Returned p, w') \<longrightarrow> count p = 0 \<and> count p \<le> capacity p) \<and>
   (r_arr_resize q n v = (Returned u, q', v') \<longrightarrow>
      count q' = min (count q) n \<and> count q' \<le> capacity q') \<and>
   (r_arr_push_back r e x = (Returned u', r', x') \<longrightarrow> count r' \<le> capacity r')"
proof (intro conjI impI)
  assume "r_new_dyn_vector ty cap w = (Returned p, w')"
  from r_new_dyn_vector_Returned(1,2)[OF this]
  show "count p = 0" "count p \<le> capacity p" by simp_all
next
  assume "r_arr_resize q n v = (Returned u, q', v')"
  from r_arr_resize_fields(1,2)[OF this]
  show "count q' = min (count q) n" "count q' \<le> capacity q'"
    by (simp_all add: r_ssize_min_def min_def)
next
  assume "r_arr_push_back r e x = (Returned u', r', x')"
  then obtain w1 where
    "count r' \<le> capacity r' \<or>
     r_arr_resize (r\<lparr>count := wrap_ssize (count r + 1)\<rparr>)
       (capacity r * growth_factor r) x = (Returned (), r', w1)"
    by (auto elim!: r_arr_push_back_Returned)
  then show "count r' \<le> capacity r'"
  proof
    assume "r_arr_resize (r\<lparr>count := wrap_ssize (count r + 1)\<rparr>)
       (capacity r * growth_factor r) x = (Returned (), r', w1)"
    from r_arr_resize_fields(1,2)[OF this] show ?thesis
      by (simp add: r_ssize_min_def)
  qed
qed

theorem count_le_capacity_witness:
  "fst (r_new_dyn_vector r_type_integer 1 host0) = Returned int_arr \<and>
   count int_arr = 0 \<and> count int_arr \<le> capacity int_arr \<and>
   fst int_pushed = Returned () \<and>
   count (fst (snd int_pushed)) = 1 \<and> capacity (fst (snd int_pushed)) = 1 \<and>
   fst int_truncated = Returned () \<and>
   count (fst (snd int_truncated)) = 0 \<and> capacity (fst (snd int_truncated)) = 0"
proof -
  have a: "fst int_pushed = Returned ()"
    by (simp add: int_pushed_def int_arr_def int_world_eq host0_def host_defs dyn_array_defs
        Let_def)
  have a': "count (fst (snd int_pushed)) = 1 \<and> capacity (fst (snd int_pushed)) = 1"
    by (simp add: int_pushed_def int_arr_def int_world_eq host0_def host_defs dyn_array_defs
        Let_def)
  have b: "fst int_truncated = Returned ()"
    by (simp add: int_truncated_def int_pushed_def int_arr_def int_world_eq host0_def
        host_defs dyn_array_defs Let_def)
  have b': "capacity (fst (snd int_truncated)) = 0"
    by (simp add: int_truncated_def int_pushed_def int_arr_def int_world_eq host0_def
        host_defs dyn_array_defs Let_def)
  have ra: "r_arr_push_back int_arr (Some elt1234) int_world =
      (Returned (), fst (snd int_pushed), snd (snd int_pushed))"
    using a by (simp add: int_pushed_def prod_eq_iff)
  have rb: "r_arr_resize (fst (snd int_pushed)) 0 (snd (snd int_pushed)) =
      (Returned (), fst (snd int_truncated), snd (snd int_truncated))"
    using b by (simp add: int_truncated_def prod_eq_iff)
  from count_le_capacity[of r_type_integer 1 host0 int_arr int_world
      "fst (snd int_pushed)" 0 "snd (snd int_pushed)" "()" "fst (snd int_truncated)"
      "snd (snd int_truncated)" int_arr "Some elt1234" int_world "()"
      "fst (snd int_pushed)" "snd (snd int_pushed)"] int_created ra rb a a' b b'
  show ?thesis
    by simp
qed

text \<open>
  C8. \<^verbatim>\<open>r_new_dyn_array\<close> fails with \<open>OverflowError\<close> and leaves the world untouched
  when the product of the capacity and the element size exceeds the signed size maximum.
  Otherwise it is \<^verbatim>\<open>r_new_dyn_vector\<close> at the raw type with the product as capacity:
  what it returns is a raw array whose capacity and whose backing vector are exactly
  that many bytes, and it does return when the product is not negative and the host has
  the memory.
\<close>

theorem create_byte_array_checked:
  "(R_SSIZE_MAX < cap * elt_size \<longrightarrow>
      r_new_dyn_array elt_size cap w = (Raised OverflowError, w)) \<and>
   (R_SSIZE_MIN \<le> cap * elt_size \<and> cap * elt_size \<le> R_SSIZE_MAX \<longrightarrow>
      r_new_dyn_array elt_size cap w = r_new_dyn_vector r_type_raw (cap * elt_size) w) \<and>
   (r_new_dyn_array elt_size cap w = (Returned p, w') \<longrightarrow>
      type p = r_type_raw \<and> elt_byte_size p = 1 \<and> count p = 0 \<and>
      capacity p = cap * elt_size \<and> arr_ok w' p \<and>
      (\<exists>x. v_data p = Ptr x 0 \<and> r_list_get (shelter p) 1 w' = (Returned x, w') \<and>
           r_length x w' = Some (cap * elt_size))) \<and>
   (0 \<le> cap * elt_size \<and> cap * elt_size \<le> R_SSIZE_MAX \<and> (\<forall>n b. mem_ok w n b) \<longrightarrow>
      (\<exists>q v. r_new_dyn_array elt_size cap w = (Returned q, v)))"
proof (intro conjI impI)
  assume "R_SSIZE_MAX < cap * elt_size"
  then show "r_new_dyn_array elt_size cap w = (Raised OverflowError, w)"
    by (simp add: r_new_dyn_array_def r_ssize_mult_def)
next
  assume "R_SSIZE_MIN \<le> cap * elt_size \<and> cap * elt_size \<le> R_SSIZE_MAX"
  then show "r_new_dyn_array elt_size cap w = r_new_dyn_vector r_type_raw (cap * elt_size) w"
    by (simp add: r_new_dyn_array_def r_ssize_mult_def)
next
  assume "0 \<le> cap * elt_size \<and> cap * elt_size \<le> R_SSIZE_MAX \<and> (\<forall>n b. mem_ok w n b)"
  then show "\<exists>q v. r_new_dyn_array elt_size cap w = (Returned q, v)"
    using r_new_dyn_vector_returns[of w "cap * elt_size" r_type_raw]
    by (simp add: r_new_dyn_array_def r_ssize_mult_def R_SSIZE_MIN_def)
next
  assume run: "r_new_dyn_array elt_size cap w = (Returned p, w')"
  then have rng: "cap * elt_size \<le> R_SSIZE_MAX"
    and mk: "r_new_dyn_vector r_type_raw (cap * elt_size) w = (Returned p, w')"
    by (auto simp: r_new_dyn_array_def r_ssize_mult_def split: if_splits)
  from r_new_dyn_vector_Returned(2)[OF mk]
  show "type p = r_type_raw" "elt_byte_size p = 1" "count p = 0" "capacity p = cap * elt_size"
    by simp_all
  from r_new_dyn_vector_arr_ok[OF mk rng] show "arr_ok w' p" .
  from r_new_dyn_vector_backing[OF mk]
  show "\<exists>x. v_data p = Ptr x 0 \<and> r_list_get (shelter p) 1 w' = (Returned x, w') \<and>
           r_length x w' = Some (cap * elt_size)" .
qed

theorem create_byte_array_checked_witness:
  "R_SSIZE_MAX < 2 ^ 62 * 4 \<and>
   r_new_dyn_array 4 (2 ^ 62) host0 = (Raised OverflowError, host0) \<and>
   r_new_dyn_array 3 2 host0 = r_new_dyn_vector r_type_raw 6 host0 \<and>
   (\<exists>q v. r_new_dyn_array 3 2 host0 = (Returned q, v) \<and> type q = r_type_raw \<and>
      capacity q = 6 \<and> elt_byte_size q = 1 \<and> arr_ok v q)"
proof -
  have big: "R_SSIZE_MAX < 2 ^ 62 * (4::int)"
    by (simp add: R_SSIZE_MAX_def)
  have small: "R_SSIZE_MIN \<le> 2 * (3::int) \<and> 2 * (3::int) \<le> R_SSIZE_MAX"
    by (simp add: R_SSIZE_MAX_def R_SSIZE_MIN_def)
  have mem: "0 \<le> 2 * (3::int) \<and> 2 * (3::int) \<le> R_SSIZE_MAX \<and> (\<forall>n b. mem_ok host0 n b)"
    by (simp add: R_SSIZE_MAX_def host0_def)
  from create_byte_array_checked[of "2 ^ 62" 4 host0] big
  have a: "r_new_dyn_array 4 (2 ^ 62) host0 = (Raised OverflowError, host0)"
    by blast
  from create_byte_array_checked[of 2 3 host0] small
  have b: "r_new_dyn_array 3 2 host0 = r_new_dyn_vector r_type_raw 6 host0"
    by simp
  from create_byte_array_checked[of 2 3 host0] mem
  obtain q v where run: "r_new_dyn_array 3 2 host0 = (Returned q, v)"
    by blast
  from create_byte_array_checked[of 2 3 host0 q v] run
  have "type q = r_type_raw \<and> capacity q = 6 \<and> elt_byte_size q = 1 \<and> arr_ok v q"
    by simp
  with a b big run show ?thesis by blast
qed

text \<open>
  C9. Whenever create returns, the protection stack is what it was at entry: the root
  taken by \<^verbatim>\<open>KEEP\<close> on the shelter has been released by the \<^verbatim>\<open>FREE(1)\<close> before the
  return, and nothing else was released.
\<close>

theorem create_balances_protection:
  "r_new_dyn_vector ty cap w = (Returned p, w') \<Longrightarrow> pstack w' = pstack w"
  by (drule r_new_dyn_vector_Returned(3)) simp

theorem create_balances_protection_witness:
  "r_new_dyn_vector r_type_integer 1 host0 = (Returned int_arr, int_world) \<and>
   pstack host0 = [Ref 0] \<and> pstack int_world = [Ref 0]"
  using create_balances_protection[OF int_created] int_created
  by (simp add: host0_def)

section \<open>Properties of the attribute setters\<close>




end
